theory Spec2Isabelle
  imports Complex_Main
begin

section \<open>Floating-point values as numpy computes with them\<close>

text \<open>
  The script egarch_ibov.py computes with numpy float64 scalars. A value is either a
  finite number or one of the three IEEE special values. Finite results are kept as
  exact reals: rounding is not modelled, and sums and products of finite numbers do
  not overflow. The exponential does overflow, since it leaves the range of the floats
  for arguments above 709 already: a result beyond the largest float is \<open>+inf\<close> (the
  half unit in the last place by which rounding moves this bound is not modelled). The
  special values follow IEEE 754 as numpy applies it (warnings are switched off by the
  script, so no operation raises): \<open>log 0 = -inf\<close>, \<open>exp (-inf) = 0\<close>,
  \<open>inf - inf = nan\<close>, \<open>0 * inf = nan\<close>, the square root or logarithm of a
  negative number is \<open>nan\<close>, and every comparison with \<open>nan\<close> is false.
\<close>

datatype npfloat = Fin real | PInf | NInf | NaN

fun is_finite :: "npfloat \<Rightarrow> bool" where
  "is_finite (Fin x) = True"
| "is_finite PInf = False"
| "is_finite NInf = False"
| "is_finite NaN = False"

fun fneg :: "npfloat \<Rightarrow> npfloat" where
  "fneg (Fin x) = Fin (- x)"
| "fneg PInf = NInf"
| "fneg NInf = PInf"
| "fneg NaN = NaN"

fun fadd :: "npfloat \<Rightarrow> npfloat \<Rightarrow> npfloat" where
  "fadd NaN y = NaN"
| "fadd x NaN = NaN"
| "fadd (Fin a) (Fin b) = Fin (a + b)"
| "fadd (Fin a) PInf = PInf"
| "fadd (Fin a) NInf = NInf"
| "fadd PInf (Fin b) = PInf"
| "fadd PInf PInf = PInf"
| "fadd PInf NInf = NaN"
| "fadd NInf (Fin b) = NInf"
| "fadd NInf PInf = NaN"
| "fadd NInf NInf = NInf"

definition fsub :: "npfloat \<Rightarrow> npfloat \<Rightarrow> npfloat" where
  "fsub x y = fadd x (fneg y)"

text \<open>The product of an infinity with a finite number: the sign decides, zero gives nan.\<close>

definition inf_times :: "npfloat \<Rightarrow> real \<Rightarrow> npfloat" where
  "inf_times i a = (if a = 0 then NaN else if 0 < a then i else fneg i)"

fun fmul :: "npfloat \<Rightarrow> npfloat \<Rightarrow> npfloat" where
  "fmul NaN y = NaN"
| "fmul x NaN = NaN"
| "fmul (Fin a) (Fin b) = Fin (a * b)"
| "fmul (Fin a) PInf = inf_times PInf a"
| "fmul (Fin a) NInf = inf_times NInf a"
| "fmul PInf (Fin b) = inf_times PInf b"
| "fmul NInf (Fin b) = inf_times NInf b"
| "fmul PInf PInf = PInf"
| "fmul PInf NInf = NInf"
| "fmul NInf PInf = NInf"
| "fmul NInf NInf = PInf"

text \<open>\<open>x ** 2\<close> on a float64 scalar.\<close>

definition fsquare :: "npfloat \<Rightarrow> npfloat" where
  "fsquare x = fmul x x"

fun fsqrt :: "npfloat \<Rightarrow> npfloat" where
  "fsqrt (Fin x) = (if x < 0 then NaN else Fin (sqrt x))"
| "fsqrt PInf = PInf"
| "fsqrt NInf = NaN"
| "fsqrt NaN = NaN"

text \<open>The largest finite float64, \<open>(2 - 2^-52) * 2^1023\<close>.\<close>

definition float64_max :: real where
  "float64_max = 2 ^ 1024 - 2 ^ 971"

fun fexp :: "npfloat \<Rightarrow> npfloat" where
  "fexp (Fin x) = (if float64_max < exp x then PInf else Fin (exp x))"
| "fexp PInf = PInf"
| "fexp NInf = Fin 0"
| "fexp NaN = NaN"

fun flog :: "npfloat \<Rightarrow> npfloat" where
  "flog (Fin x) = (if x < 0 then NaN else if x = 0 then NInf else Fin (ln x))"
| "flog PInf = PInf"
| "flog NInf = NaN"
| "flog NaN = NaN"

text \<open>The comparisons \<open><\<close> and \<open><=\<close> of floats: false as soon as one side is nan.\<close>

fun flt :: "npfloat \<Rightarrow> npfloat \<Rightarrow> bool" where
  "flt NaN y = False"
| "flt x NaN = False"
| "flt (Fin a) (Fin b) = (a < b)"
| "flt (Fin a) PInf = True"
| "flt (Fin a) NInf = False"
| "flt PInf y = False"
| "flt NInf (Fin b) = True"
| "flt NInf PInf = True"
| "flt NInf NInf = False"

text \<open>
  Where the exponential stays finite and where it overflows: it is finite up to \<open>0\<close>
  at least, and \<open>+inf\<close> from \<open>768\<close> on (the exact bound lies near \<open>709.78\<close>).
\<close>

lemma float64_max_ge_one: "1 \<le> float64_max"
proof -
  have "(2::real) ^ 1024 = 2 ^ 971 * 2 ^ 53" by (simp add: power_add [symmetric])
  then have "float64_max = 2 ^ 971 * (2 ^ 53 - 1)" by (simp add: float64_max_def algebra_simps)
  moreover have "(1::real) \<le> 2 ^ 971" by (rule one_le_power) simp
  moreover have "(1::real) \<le> 2 ^ 53 - 1" by simp
  ultimately show ?thesis using mult_mono [of 1 "2 ^ 971 :: real" 1 "2 ^ 53 - 1"] by simp
qed

lemma exp_not_above_max: "x \<le> 0 \<Longrightarrow> \<not> float64_max < exp x"
proof -
  assume "x \<le> 0"
  then have "exp x \<le> 1" by simp
  with float64_max_ge_one show ?thesis by linarith
qed

lemma exp_three_quarters: "2 \<le> exp (3 / 4 :: real)"
proof -
  have "(2::real) \<le> (1 + 3 / 32) ^ 8" by (simp add: power_divide)
  also have "\<dots> \<le> exp (3 / 32) ^ 8"
  proof (rule power_mono)
    show "1 + 3 / 32 \<le> exp (3 / 32 :: real)" by (rule exp_ge_add_one_self)
    show "(0::real) \<le> 1 + 3 / 32" by simp
  qed
  also have "\<dots> = exp (of_nat 8 * (3 / 32))" by (simp only: exp_of_nat_mult)
  also have "\<dots> = exp (3 / 4)" by simp
  finally show ?thesis .
qed

lemma exp_above_max: "768 \<le> x \<Longrightarrow> float64_max < exp x"
proof -
  assume x: "768 \<le> x"
  have "float64_max < 2 ^ 1024" by (simp add: float64_max_def)
  also have "(2::real) ^ 1024 \<le> exp (3 / 4) ^ 1024"
    by (intro power_mono exp_three_quarters) simp
  also have "\<dots> = exp (of_nat 1024 * (3 / 4))" by (simp only: exp_of_nat_mult)
  also have "\<dots> = exp 768" by simp
  also have "\<dots> \<le> exp x" using x by simp
  finally show ?thesis .
qed

lemma fexp_nonpos: "x \<le> 0 \<Longrightarrow> fexp (Fin x) = Fin (exp x)"
  using exp_not_above_max [of x] by simp

lemma fexp_overflow: "768 \<le> x \<Longrightarrow> fexp (Fin x) = PInf"
  using exp_above_max [of x] by simp

section \<open>Errors, the fitted model and the random source\<close>

datatype py_error = KeyError string | IndexError | ValueError | TypeError

text \<open>
  What \<open>monte_carlo_simulation\<close> reads of its argument \<open>model_fit\<close>: the parameter
  series, indexed by name, and the series of conditional volatilities.
\<close>

record model_fit =
  params :: "string \<rightharpoonup> npfloat"
  conditional_volatility :: "npfloat list"

text \<open>\<open>params[key]\<close>: a missing label raises KeyError.\<close>

definition getitem :: "(string \<rightharpoonup> npfloat) \<Rightarrow> string \<Rightarrow> py_error + npfloat" where
  "getitem ps k = (case ps k of None \<Rightarrow> Inl (KeyError k) | Some v \<Rightarrow> Inr v)"

text \<open>\<open>series[-1]\<close>: the last element; an empty series raises IndexError.\<close>

definition last_item :: "npfloat list \<Rightarrow> py_error + npfloat" where
  "last_item xs = (if xs = [] then Inl IndexError else Inr (last xs))"

text \<open>
  The global generator behind \<open>np.random.standard_normal()\<close> is the sequence of the
  draws it will still deliver. A draw returns the head, a finite Python float, and
  leaves the rest as the new state of the generator.
\<close>

type_synonym rng = "nat \<Rightarrow> real"

definition standard_normal :: "rng \<Rightarrow> real \<times> rng" where
  "standard_normal g = (g 0, \<lambda>k. g (Suc k))"

section \<open>The result matrix\<close>

text \<open>A two-dimensional array: its shape and its rows.\<close>

record ndarray =
  nrows :: nat
  ncols :: nat
  rows :: "npfloat list list"

text \<open>\<open>np.zeros((n, m))\<close>: a negative dimension raises ValueError.\<close>

definition np_zeros :: "int \<Rightarrow> int \<Rightarrow> py_error + ndarray" where
  "np_zeros n m =
     (if n < 0 \<or> m < 0 then Inl ValueError
      else Inr \<lparr>nrows = nat n, ncols = nat m,
                rows = replicate (nat n) (replicate (nat m) (Fin 0))\<rparr>)"

text \<open>\<open>a[i, j] = v\<close>, for an index inside the array (the loops below never leave it).\<close>

definition setitem :: "ndarray \<Rightarrow> nat \<Rightarrow> nat \<Rightarrow> npfloat \<Rightarrow> ndarray" where
  "setitem a i j v = a\<lparr>rows := (rows a)[i := (rows a ! i)[j := v]]\<rparr>"

section \<open>monte_carlo_simulation\<close>

text \<open>The six parameters read at lines 43 to 49, in the order of the reads.\<close>

record coeffs =
  mu :: npfloat
  omega :: npfloat
  alpha1 :: npfloat
  alpha2 :: npfloat
  beta1 :: npfloat
  beta2 :: npfloat

definition read_coeffs :: "(string \<rightharpoonup> npfloat) \<Rightarrow> py_error + coeffs" where
  "read_coeffs ps =
     (case getitem ps ''mu'' of Inl e \<Rightarrow> Inl e | Inr m \<Rightarrow>
      case getitem ps ''omega'' of Inl e \<Rightarrow> Inl e | Inr w \<Rightarrow>
      case getitem ps ''alpha[1]'' of Inl e \<Rightarrow> Inl e | Inr a1 \<Rightarrow>
      case getitem ps ''alpha[2]'' of Inl e \<Rightarrow> Inl e | Inr a2 \<Rightarrow>
      case getitem ps ''beta[1]'' of Inl e \<Rightarrow> Inl e | Inr b1 \<Rightarrow>
      case getitem ps ''beta[2]'' of Inl e \<Rightarrow> Inl e | Inr b2 \<Rightarrow>
      Inr \<lparr>mu = m, omega = w, alpha1 = a1, alpha2 = a2, beta1 = b1, beta2 = b2\<rparr>)"

text \<open>\<open>np.sqrt(2/np.pi)\<close>\<close>

definition sqrt_2_over_pi :: npfloat where
  "sqrt_2_over_pi = fsqrt (Fin (2 / pi))"

text \<open>Lines 69 and 70: the new log-variance from the shock \<open>z\<close> and the old value.\<close>

definition update_log_sigma2 :: "coeffs \<Rightarrow> real \<Rightarrow> npfloat \<Rightarrow> npfloat" where
  "update_log_sigma2 c z log_sigma2 =
     fadd (fadd (fadd (omega c)
                      (fmul (alpha1 c) (fsub (Fin \<bar>z\<bar>) sqrt_2_over_pi)))
                (fmul (alpha2 c) (fsub (Fin \<bar>z\<bar>) sqrt_2_over_pi)))
          (fmul (fadd (beta1 c) (beta2 c)) log_sigma2)"

text \<open>Line 73.\<close>

definition volatility :: "npfloat \<Rightarrow> npfloat" where
  "volatility log_sigma2 = fsqrt (fexp log_sigma2)"

text \<open>Line 76.\<close>

definition log_return :: "coeffs \<Rightarrow> npfloat \<Rightarrow> real \<Rightarrow> npfloat" where
  "log_return c sigma z =
     fadd (fsub (mu c) (fmul (Fin 0.5) (fsquare sigma))) (fmul sigma (Fin z))"

text \<open>
  The state the two loops change: the generator and the matrix. The inner loop also
  carries \<open>log_sigma2\<close>, which every path sets anew.
\<close>

record mc_state =
  gen :: rng
  simulated_returns :: ndarray

text \<open>The body of the inner loop, lines 65 to 77, at path \<open>sim\<close> and step \<open>t\<close>.\<close>

definition time_step :: "coeffs \<Rightarrow> nat \<Rightarrow> nat \<Rightarrow> npfloat \<times> mc_state \<Rightarrow> npfloat \<times> mc_state" where
  "time_step c sim t s =
     (case s of (log_sigma2, st) \<Rightarrow>
        (case standard_normal (gen st) of (z, g') \<Rightarrow>
           let log_sigma2' = update_log_sigma2 c z log_sigma2;
               sigma = volatility log_sigma2';
               r = log_return c sigma z
           in (log_sigma2',
               \<lparr>gen = g', simulated_returns = setitem (simulated_returns st) sim t r\<rparr>)))"

text \<open>\<open>for t in range(forecast_period)\<close>, over the list of the values of \<open>t\<close>.\<close>

primrec time_loop :: "coeffs \<Rightarrow> nat \<Rightarrow> nat list \<Rightarrow> npfloat \<times> mc_state \<Rightarrow> npfloat \<times> mc_state" where
  "time_loop c sim [] s = s"
| "time_loop c sim (t # ts) s = time_loop c sim ts (time_step c sim t s)"

text \<open>Line 62: a path starts by setting \<open>log_sigma2\<close> from the last volatility.\<close>

definition path_init :: "npfloat \<Rightarrow> mc_state \<Rightarrow> npfloat \<times> mc_state" where
  "path_init last_vol st = (flog (fsquare last_vol), st)"

text \<open>The body of the outer loop, lines 61 to 77: one path.\<close>

definition path_body :: "coeffs \<Rightarrow> npfloat \<Rightarrow> nat \<Rightarrow> nat \<Rightarrow> mc_state \<Rightarrow> npfloat \<times> mc_state" where
  "path_body c last_vol forecast_period sim st =
     time_loop c sim [0..<forecast_period] (path_init last_vol st)"

text \<open>\<open>for sim in range(n_simulations)\<close>, over the list of the values of \<open>sim\<close>.\<close>

primrec sim_loop :: "coeffs \<Rightarrow> npfloat \<Rightarrow> nat \<Rightarrow> nat list \<Rightarrow> mc_state \<Rightarrow> mc_state" where
  "sim_loop c last_vol forecast_period [] st = st"
| "sim_loop c last_vol forecast_period (sim # sims) st =
     sim_loop c last_vol forecast_period sims
       (snd (path_body c last_vol forecast_period sim st))"

text \<open>
  The function returns the matrix; the generator it leaves behind is returned with it,
  since the draws are an effect on global state. \<open>annual_vol\<close> (line 58) is computed
  and never used.
\<close>

definition monte_carlo_simulation ::
  "model_fit \<Rightarrow> int \<Rightarrow> int \<Rightarrow> rng \<Rightarrow> py_error + (ndarray \<times> rng)" where
  "monte_carlo_simulation fit n_simulations forecast_period g =
     (case read_coeffs (params fit) of Inl e \<Rightarrow> Inl e | Inr c \<Rightarrow>
      case np_zeros n_simulations forecast_period of Inl e \<Rightarrow> Inl e | Inr zeros \<Rightarrow>
      case last_item (conditional_volatility fit) of Inl e \<Rightarrow> Inl e | Inr last_vol \<Rightarrow>
        let annual_vol = fmul (fsqrt (Fin 252)) last_vol;
            st = sim_loop c last_vol (nat forecast_period) [0..<nat n_simulations]
                   \<lparr>gen = g, simulated_returns = zeros\<rparr>
        in Inr (simulated_returns st, gen st))"

text \<open>The defaults of the signature at line 41, and the call that leaves both out.\<close>

definition default_n_simulations :: int where
  "default_n_simulations = 10000"

definition default_forecast_period :: int where
  "default_forecast_period = 21"

definition monte_carlo_simulation_default :: "model_fit \<Rightarrow> rng \<Rightarrow> py_error + (ndarray \<times> rng)" where
  "monte_carlo_simulation_default fit g =
     monte_carlo_simulation fit default_n_simulations default_forecast_period g"

section \<open>What one path computes\<close>

text \<open>
  The log-variance of a path after \<open>k\<close> steps and the return it stores at step
  \<open>t\<close>, as functions of the shocks \<open>z 0, z 1, ...\<close> the path draws. They are
  built from the loop body's own formulas and are shown below to be what the loops
  compute.
\<close>

fun path_log_sigma2 :: "coeffs \<Rightarrow> npfloat \<Rightarrow> (nat \<Rightarrow> real) \<Rightarrow> nat \<Rightarrow> npfloat" where
  "path_log_sigma2 c last_vol z 0 = flog (fsquare last_vol)"
| "path_log_sigma2 c last_vol z (Suc k) =
     update_log_sigma2 c (z k) (path_log_sigma2 c last_vol z k)"

definition path_return :: "coeffs \<Rightarrow> npfloat \<Rightarrow> (nat \<Rightarrow> real) \<Rightarrow> nat \<Rightarrow> npfloat" where
  "path_return c last_vol z t =
     log_return c (volatility (path_log_sigma2 c last_vol z (Suc t))) (z t)"

text \<open>A row after the first \<open>k\<close> steps of its path have stored their returns \<open>R t\<close>.\<close>

definition write_row :: "(nat \<Rightarrow> npfloat) \<Rightarrow> nat \<Rightarrow> npfloat list \<Rightarrow> npfloat list" where
  "write_row R k row = fold (\<lambda>t r. r[t := R t]) [0..<k] row"

lemma write_row_0: "write_row R 0 row = row"
  by (simp add: write_row_def)

lemma write_row_Suc: "write_row R (Suc k) row = (write_row R k row)[k := R k]"
  by (simp add: write_row_def)

lemma length_write_row: "length (write_row R k row) = length row"
  by (induction k) (simp_all add: write_row_0 write_row_Suc)

lemma nth_write_row:
  "t < length row \<Longrightarrow> write_row R k row ! t = (if t < k then R t else row ! t)"
  by (induction k) (auto simp: write_row_0 write_row_Suc length_write_row nth_list_update less_Suc_eq)

lemma write_row_full: "write_row R (length row) row = map R [0..<length row]"
  by (rule nth_equalityI) (simp_all add: length_write_row nth_write_row)

lemma time_loop_append:
  "time_loop c sim (xs @ ys) s = time_loop c sim ys (time_loop c sim xs s)"
  by (induction xs arbitrary: s) simp_all

lemma time_loop_Suc:
  "time_loop c sim [0..<Suc k] s = time_step c sim k (time_loop c sim [0..<k] s)"
  by (simp add: time_loop_append)

lemma time_loop_log_sigma2:
  "fst (time_loop c sim [0..<k] (flog (fsquare last_vol), st)) = path_log_sigma2 c last_vol (gen st) k
   \<and> gen (snd (time_loop c sim [0..<k] (flog (fsquare last_vol), st))) = (\<lambda>j. gen st (k + j))"
proof (induction k)
  case 0
  show ?case by simp
next
  case (Suc k)
  obtain l s' where e: "time_loop c sim [0..<k] (flog (fsquare last_vol), st) = (l, s')"
    by (cases "time_loop c sim [0..<k] (flog (fsquare last_vol), st)")
  with Suc have l: "l = path_log_sigma2 c last_vol (gen st) k" and g: "gen s' = (\<lambda>j. gen st (k + j))"
    by simp_all
  show ?case
    unfolding time_loop_Suc e
    by (simp add: time_step_def standard_normal_def Let_def l g)
qed

lemma time_loop_rows:
  assumes "sim < length (rows (simulated_returns st))"
  shows "simulated_returns (snd (time_loop c sim [0..<k] (flog (fsquare last_vol), st)))
         = (simulated_returns st)\<lparr>rows := (rows (simulated_returns st))
              [sim := write_row (path_return c last_vol (gen st)) k (rows (simulated_returns st) ! sim)]\<rparr>"
proof (induction k)
  case 0
  show ?case by (simp add: write_row_0)
next
  case (Suc k)
  obtain l s' where e: "time_loop c sim [0..<k] (flog (fsquare last_vol), st) = (l, s')"
    by (cases "time_loop c sim [0..<k] (flog (fsquare last_vol), st)")
  from time_loop_log_sigma2 [of c sim k last_vol st] e
  have l: "l = path_log_sigma2 c last_vol (gen st) k" and g: "gen s' = (\<lambda>j. gen st (k + j))"
    by simp_all
  from Suc e have m: "simulated_returns s' = (simulated_returns st)\<lparr>rows := (rows (simulated_returns st))
              [sim := write_row (path_return c last_vol (gen st)) k (rows (simulated_returns st) ! sim)]\<rparr>"
    by simp
  show ?case
    unfolding time_loop_Suc e
    using assms
    by (simp add: time_step_def standard_normal_def Let_def l g m setitem_def write_row_Suc path_return_def [abs_def])
qed

text \<open>The row of a path: the returns of its \<open>T\<close> steps.\<close>

definition path_row :: "coeffs \<Rightarrow> npfloat \<Rightarrow> (nat \<Rightarrow> real) \<Rightarrow> nat \<Rightarrow> npfloat list" where
  "path_row c last_vol z T = map (path_return c last_vol z) [0..<T]"

lemma path_log_sigma2_cong:
  assumes "\<And>j. j < k \<Longrightarrow> z j = z' j"
  shows "path_log_sigma2 c last_vol z k = path_log_sigma2 c last_vol z' k"
  using assms
proof (induction k)
  case 0
  show ?case by simp
next
  case (Suc k)
  have "z k = z' k" by (rule Suc.prems) simp
  moreover have "path_log_sigma2 c last_vol z k = path_log_sigma2 c last_vol z' k"
    by (rule Suc.IH) (rule Suc.prems, simp)
  ultimately show ?case by simp
qed

lemma path_return_cong:
  assumes "\<And>j. j \<le> t \<Longrightarrow> z j = z' j"
  shows "path_return c last_vol z t = path_return c last_vol z' t"
proof -
  have "z t = z' t" by (rule assms) simp
  moreover have "path_log_sigma2 c last_vol z (Suc t) = path_log_sigma2 c last_vol z' (Suc t)"
    by (rule path_log_sigma2_cong) (rule assms, simp)
  ultimately show ?thesis unfolding path_return_def by simp
qed

lemma path_row_cong:
  assumes "\<And>j. j < T \<Longrightarrow> z j = z' j"
  shows "path_row c last_vol z T = path_row c last_vol z' T"
proof -
  have "path_return c last_vol z t = path_return c last_vol z' t" if "t < T" for t
    by (rule path_return_cong) (rule assms, use that in simp)
  then show ?thesis unfolding path_row_def by simp
qed

lemma path_body_state:
  assumes "sim < length (rows (simulated_returns st))"
      and "length (rows (simulated_returns st) ! sim) = T"
  shows "snd (path_body c last_vol T sim st)
         = \<lparr>gen = (\<lambda>j. gen st (T + j)),
            simulated_returns = (simulated_returns st)\<lparr>rows :=
              (rows (simulated_returns st))[sim := path_row c last_vol (gen st) T]\<rparr>\<rparr>"
proof -
  have "write_row (path_return c last_vol (gen st)) T (rows (simulated_returns st) ! sim)
        = path_row c last_vol (gen st) T"
    using write_row_full [of "path_return c last_vol (gen st)" "rows (simulated_returns st) ! sim"] assms(2)
    by (simp add: path_row_def)
  then show ?thesis
    using time_loop_rows [OF assms(1), of c T last_vol] time_loop_log_sigma2 [of c sim T last_vol st]
    by (simp add: path_body_def path_init_def)
qed

text \<open>
  The outer loop over any list of distinct paths: the path in place \<open>j\<close> of the list
  draws the shocks \<open>j * T, ...\<close>, writes its own row and leaves the other rows alone.
\<close>

lemma sim_loop_order:
  "distinct order \<Longrightarrow> (\<forall>s\<in>set order. s < length (rows (simulated_returns st))) \<Longrightarrow>
   (\<forall>r\<in>set (rows (simulated_returns st)). length r = T) \<Longrightarrow>
   gen (sim_loop c last_vol T order st) = (\<lambda>k. gen st (length order * T + k)) \<and>
   nrows (simulated_returns (sim_loop c last_vol T order st)) = nrows (simulated_returns st) \<and>
   ncols (simulated_returns (sim_loop c last_vol T order st)) = ncols (simulated_returns st) \<and>
   length (rows (simulated_returns (sim_loop c last_vol T order st))) = length (rows (simulated_returns st)) \<and>
   (\<forall>j<length order. rows (simulated_returns (sim_loop c last_vol T order st)) ! (order ! j)
        = path_row c last_vol (\<lambda>k. gen st (j * T + k)) T) \<and>
   (\<forall>s<length (rows (simulated_returns st)). s \<notin> set order \<longrightarrow>
        rows (simulated_returns (sim_loop c last_vol T order st)) ! s = rows (simulated_returns st) ! s)"
proof (induction order arbitrary: st)
  case Nil
  show ?case by simp
next
  case (Cons s rest)
  let ?a = "simulated_returns st"
  let ?st1 = "snd (path_body c last_vol T s st)"
  let ?fin = "sim_loop c last_vol T rest ?st1"
  from Cons.prems have s_lt: "s < length (rows ?a)" and s_notin: "s \<notin> set rest"
    and d: "distinct rest" and lens: "\<forall>r\<in>set (rows ?a). length r = T"
    by simp_all
  from s_lt lens have len_s: "length (rows ?a ! s) = T" by simp
  have st1: "?st1 = \<lparr>gen = (\<lambda>j. gen st (T + j)),
            simulated_returns = ?a\<lparr>rows := (rows ?a)[s := path_row c last_vol (gen st) T]\<rparr>\<rparr>"
    by (rule path_body_state [OF s_lt len_s])
  have g1: "gen ?st1 = (\<lambda>j. gen st (T + j))" by (simp add: st1)
  have r1: "rows (simulated_returns ?st1) = (rows ?a)[s := path_row c last_vol (gen st) T]"
    by (simp add: st1)
  have n1: "nrows (simulated_returns ?st1) = nrows ?a" "ncols (simulated_returns ?st1) = ncols ?a"
    by (simp_all add: st1)
  have p1: "\<forall>s'\<in>set rest. s' < length (rows (simulated_returns ?st1))"
    using Cons.prems(2) by (simp add: r1)
  have "length (path_row c last_vol (gen st) T) = T" by (simp add: path_row_def)
  then have p2: "\<forall>r\<in>set (rows (simulated_returns ?st1)). length r = T"
    using lens set_update_subset_insert [of "rows ?a" s "path_row c last_vol (gen st) T"]
    unfolding r1 by auto
  note ih = Cons.IH [OF d p1 p2]
  note ihG = ih [THEN conjunct1]
  note ihn = ih [THEN conjunct2, THEN conjunct1]
  note ihc = ih [THEN conjunct2, THEN conjunct2, THEN conjunct1]
  note ihl = ih [THEN conjunct2, THEN conjunct2, THEN conjunct2, THEN conjunct1]
  note ihR = ih [THEN conjunct2, THEN conjunct2, THEN conjunct2, THEN conjunct2, THEN conjunct1]
  note ihU = ih [THEN conjunct2, THEN conjunct2, THEN conjunct2, THEN conjunct2, THEN conjunct2]
  have G: "gen ?fin = (\<lambda>k. gen st (length (s # rest) * T + k))"
    unfolding ihG g1 by (simp add: add.assoc)
  have N: "nrows (simulated_returns ?fin) = nrows ?a" "ncols (simulated_returns ?fin) = ncols ?a"
    "length (rows (simulated_returns ?fin)) = length (rows ?a)"
    unfolding ihn ihc ihl n1 r1 by simp_all
  have R: "rows (simulated_returns ?fin) ! ((s # rest) ! j) = path_row c last_vol (\<lambda>k. gen st (j * T + k)) T"
    if "j < length (s # rest)" for j
  proof (cases j)
    case 0
    have "s < length (rows (simulated_returns ?st1))" using s_lt unfolding r1 by simp
    with ihU s_notin have "rows (simulated_returns ?fin) ! s = rows (simulated_returns ?st1) ! s"
      by blast
    also have "\<dots> = path_row c last_vol (gen st) T" unfolding r1 using s_lt by simp
    finally show ?thesis by (simp add: 0)
  next
    case (Suc j')
    with that have "j' < length rest" by simp
    with ihR have "rows (simulated_returns ?fin) ! (rest ! j') = path_row c last_vol (\<lambda>k. gen ?st1 (j' * T + k)) T"
      by blast
    then show ?thesis unfolding g1 by (simp add: Suc add.assoc)
  qed
  have U: "rows (simulated_returns ?fin) ! s' = rows ?a ! s'"
    if "s' < length (rows ?a)" "s' \<notin> set (s # rest)" for s'
  proof -
    from that have a: "s' \<notin> set rest" and b: "s' \<noteq> s" by auto
    have "s' < length (rows (simulated_returns ?st1))" using that(1) unfolding r1 by simp
    with ihU a have "rows (simulated_returns ?fin) ! s' = rows (simulated_returns ?st1) ! s'"
      by blast
    also have "\<dots> = rows ?a ! s'" unfolding r1 using b by simp
    finally show ?thesis .
  qed
  have fin: "sim_loop c last_vol T (s # rest) st = ?fin" by simp
  show ?case
    unfolding fin
  proof (intro conjI allI impI)
    show "gen ?fin = (\<lambda>k. gen st (length (s # rest) * T + k))" by (rule G)
    show "nrows (simulated_returns ?fin) = nrows ?a" by (rule N)
    show "ncols (simulated_returns ?fin) = ncols ?a" by (rule N)
    show "length (rows (simulated_returns ?fin)) = length (rows ?a)" by (rule N)
    show "rows (simulated_returns ?fin) ! ((s # rest) ! j) = path_row c last_vol (\<lambda>k. gen st (j * T + k)) T"
      if "j < length (s # rest)" for j by (rule R [OF that])
    show "rows (simulated_returns ?fin) ! s' = rows ?a ! s'"
      if "s' < length (rows ?a)" "s' \<notin> set (s # rest)" for s' by (rule U [OF that])
  qed
qed

text \<open>
  The rows of all paths, path \<open>s\<close> drawing the shocks \<open>s * T, ..., s * T + T - 1\<close> of
  the generator \<open>g\<close>.
\<close>

definition all_rows :: "coeffs \<Rightarrow> npfloat \<Rightarrow> rng \<Rightarrow> nat \<Rightarrow> nat \<Rightarrow> npfloat list list" where
  "all_rows c last_vol g N T = map (\<lambda>s. path_row c last_vol (\<lambda>k. g (s * T + k)) T) [0..<N]"

lemma sim_loop_upt:
  assumes len: "length (rows a) = N" and lens: "\<forall>r\<in>set (rows a). length r = T"
  shows "sim_loop c last_vol T [0..<N] \<lparr>gen = g, simulated_returns = a\<rparr>
         = \<lparr>gen = (\<lambda>k. g (N * T + k)),
            simulated_returns = a\<lparr>rows := all_rows c last_vol g N T\<rparr>\<rparr>"
proof -
  let ?st = "\<lparr>gen = g, simulated_returns = a\<rparr>"
  let ?fin = "sim_loop c last_vol T [0..<N] ?st"
  have p1: "distinct [0..<N]" by simp
  have p2: "\<forall>s\<in>set [0..<N]. s < length (rows (simulated_returns ?st))" using len by simp
  have p3: "\<forall>r\<in>set (rows (simulated_returns ?st)). length r = T" using lens by simp
  note so = sim_loop_order [OF p1 p2 p3, of c last_vol]
  have G: "gen ?fin = (\<lambda>k. g (N * T + k))"
    using so [THEN conjunct1] by simp
  have n: "nrows (simulated_returns ?fin) = nrows a"
    using so [THEN conjunct2, THEN conjunct1] by simp
  have m: "ncols (simulated_returns ?fin) = ncols a"
    using so [THEN conjunct2, THEN conjunct2, THEN conjunct1] by simp
  have l: "length (rows (simulated_returns ?fin)) = N"
    using so [THEN conjunct2, THEN conjunct2, THEN conjunct2, THEN conjunct1] len by simp
  have r: "rows (simulated_returns ?fin) ! j = path_row c last_vol (\<lambda>k. g (j * T + k)) T"
    if "j < N" for j
  proof -
    from so [THEN conjunct2, THEN conjunct2, THEN conjunct2, THEN conjunct2, THEN conjunct1] that
    have "rows (simulated_returns ?fin) ! ([0..<N] ! j) = path_row c last_vol (\<lambda>k. gen ?st (j * T + k)) T"
      by simp
    with that show ?thesis by simp
  qed
  have R: "rows (simulated_returns ?fin) = all_rows c last_vol g N T"
    unfolding all_rows_def
    by (rule nth_equalityI) (simp_all add: l r)
  have "simulated_returns ?fin = a\<lparr>rows := all_rows c last_vol g N T\<rparr>"
    by (rule ndarray.equality) (simp_all add: n m R)
  with G show ?thesis
    by (intro mc_state.equality) simp_all
qed

text \<open>The result of the simulation in closed form, for valid inputs.\<close>

lemma mc_result:
  assumes rc: "read_coeffs (params fit) = Inr c"
      and lv: "last_item (conditional_volatility fit) = Inr last_vol"
      and n: "0 \<le> n" and T: "0 \<le> T"
  shows "monte_carlo_simulation fit n T g
         = Inr (\<lparr>nrows = nat n, ncols = nat T, rows = all_rows c last_vol g (nat n) (nat T)\<rparr>,
                \<lambda>k. g (nat n * nat T + k))"
proof -
  let ?z = "\<lparr>nrows = nat n, ncols = nat T, rows = replicate (nat n) (replicate (nat T) (Fin 0))\<rparr>"
  have z: "np_zeros n T = Inr ?z" using n T by (simp add: np_zeros_def)
  have s: "sim_loop c last_vol (nat T) [0..<nat n] \<lparr>gen = g, simulated_returns = ?z\<rparr>
         = \<lparr>gen = (\<lambda>k. g (nat n * nat T + k)),
            simulated_returns = ?z\<lparr>rows := all_rows c last_vol g (nat n) (nat T)\<rparr>\<rparr>"
    by (rule sim_loop_upt) simp_all
  show ?thesis
    by (simp add: monte_carlo_simulation_def rc z lv Let_def s)
qed

section \<open>The log-variance recursion\<close>

text \<open>
  The recursion in the words of the specification: the log-variance starts at
  \<open>ln(last_volatility^2)\<close> and a step maps it to
  \<open>omega + sum_i alpha_i * (|z| - sqrt(2/pi)) + (sum_j beta_j) * log_sigma2\<close>, with one
  shock \<open>z\<close> and one previous value for all coefficients. The sums run over the
  lists of coefficients.
\<close>

definition fsum :: "npfloat list \<Rightarrow> npfloat" where
  "fsum xs = foldl fadd (Fin 0) xs"

fun spec_log_sigma2 ::
  "npfloat \<Rightarrow> npfloat list \<Rightarrow> npfloat list \<Rightarrow> npfloat \<Rightarrow> (nat \<Rightarrow> real) \<Rightarrow> nat \<Rightarrow> npfloat" where
  "spec_log_sigma2 w alphas betas last_vol z 0 = flog (fmul last_vol last_vol)"
| "spec_log_sigma2 w alphas betas last_vol z (Suc k) =
     fadd (fadd w (fsum (map (\<lambda>a. fmul a (fsub (Fin \<bar>z k\<bar>) (fsqrt (Fin (2 / pi))))) alphas)))
          (fmul (fsum betas) (spec_log_sigma2 w alphas betas last_vol z k))"

lemma fadd_zero_left: "fadd (Fin 0) x = x"
  by (cases x) simp_all

lemma fadd_zero_right: "fadd x (Fin 0) = x"
  by (cases x) simp_all

lemma fadd_assoc: "fadd (fadd x y) z = fadd x (fadd y z)"
  by (cases x; cases y; cases z; simp)

lemma fsum_pair: "fsum [x, y] = fadd x y"
  by (simp add: fsum_def fadd_zero_left)

lemma fmul_distrib_fin: "fadd (fmul a (Fin d)) (fmul b (Fin d)) = fmul (fadd a b) (Fin d)"
  by (cases a; cases b; simp add: inf_times_def algebra_simps)

lemma sqrt_2_over_pi_fin: "sqrt_2_over_pi = Fin (sqrt (2 / pi))"
  by (simp add: sqrt_2_over_pi_def)

lemma shock_term_fin: "fsub (Fin x) sqrt_2_over_pi = Fin (x - sqrt (2 / pi))"
  by (simp add: sqrt_2_over_pi_fin fsub_def)

lemma update_log_sigma2_spec:
  "update_log_sigma2 c z l =
     fadd (fadd (omega c) (fsum (map (\<lambda>a. fmul a (fsub (Fin \<bar>z\<bar>) (fsqrt (Fin (2 / pi))))) [alpha1 c, alpha2 c])))
          (fmul (fsum [beta1 c, beta2 c]) l)"
  by (simp add: update_log_sigma2_def fsum_pair fadd_assoc sqrt_2_over_pi_def)

lemma path_log_sigma2_spec:
  "path_log_sigma2 c last_vol z k
   = spec_log_sigma2 (omega c) [alpha1 c, alpha2 c] [beta1 c, beta2 c] last_vol z k"
proof (induction k)
  case 0
  show ?case by (simp add: fsquare_def)
next
  case (Suc k)
  show ?case
    unfolding path_log_sigma2.simps spec_log_sigma2.simps update_log_sigma2_spec Suc.IH ..
qed

lemma update_log_sigma2_zero:
  "update_log_sigma2 c 0 l =
     fadd (fadd (omega c) (fmul (fadd (alpha1 c) (alpha2 c)) (fsub (Fin 0) sqrt_2_over_pi)))
          (fmul (fadd (beta1 c) (beta2 c)) l)"
  by (simp add: update_log_sigma2_def fadd_assoc shock_term_fin fmul_distrib_fin)

section \<open>The stored returns\<close>

text \<open>
  The parameters of the specification's end-to-end scenario, as a fitted model of order
  (2, 2) whose last conditional volatility is 0.015.
\<close>

definition scenario_fit :: model_fit where
  "scenario_fit =
     \<lparr>params = [''mu'' \<mapsto> Fin 0.0005, ''omega'' \<mapsto> Fin (- 0.1),
                 ''alpha[1]'' \<mapsto> Fin 0.1, ''alpha[2]'' \<mapsto> Fin 0.05,
                 ''beta[1]'' \<mapsto> Fin 0.85, ''beta[2]'' \<mapsto> Fin 0.05],
      conditional_volatility = [Fin 0.02, Fin 0.015]\<rparr>"

definition scenario_coeffs :: coeffs where
  "scenario_coeffs =
     \<lparr>mu = Fin 0.0005, omega = Fin (- 0.1), alpha1 = Fin 0.1, alpha2 = Fin 0.05,
      beta1 = Fin 0.85, beta2 = Fin 0.05\<rparr>"

lemma scenario_read_coeffs: "read_coeffs (params scenario_fit) = Inr scenario_coeffs"
  by (simp add: read_coeffs_def getitem_def scenario_fit_def scenario_coeffs_def)

lemma scenario_last_vol: "last_item (conditional_volatility scenario_fit) = Inr (Fin 0.015)"
  by (simp add: last_item_def scenario_fit_def)

lemma scenario_first_log_sigma2:
  "update_log_sigma2 scenario_coeffs 0 (flog (fsquare (Fin 0.015)))
   = Fin (- 0.1 + 0.15 * (0 - sqrt (2 / pi)) + 0.9 * ln (0.015 * 0.015))"
  by (simp add: update_log_sigma2_def scenario_coeffs_def fsquare_def fsub_def sqrt_2_over_pi_def)

lemma scenario_first_log_sigma2_nonpos:
  "- 0.1 + 0.15 * (0 - sqrt (2 / pi)) + 0.9 * ln (0.015 * 0.015) \<le> (0::real)"
proof -
  have t0: "- 0.1 \<le> (0::real)" by simp
  have t1: "0.15 * (0 - sqrt (2 / pi)) \<le> (0::real)" by (simp add: mult_le_0_iff)
  have t2: "0.9 * ln (0.015 * 0.015 :: real) \<le> 0" by (simp add: mult_le_0_iff)
  show ?thesis
    by (rule add_nonpos_nonpos [OF add_nonpos_nonpos [OF t0 t1] t2])
qed

lemma all_rows_nth:
  "s < N \<Longrightarrow> all_rows c last_vol g N T ! s = path_row c last_vol (\<lambda>k. g (s * T + k)) T"
  by (simp add: all_rows_def)

lemma all_rows_entry:
  "s < N \<Longrightarrow> t < T \<Longrightarrow>
   all_rows c last_vol g N T ! s ! t = path_return c last_vol (\<lambda>k. g (s * T + k)) t"
  by (simp add: all_rows_def path_row_def)

lemma fmul_finite_zero: "is_finite x \<Longrightarrow> fmul x (Fin 0) = Fin 0"
  by (cases x) simp_all

lemma log_return_zero_shock:
  "is_finite sigma \<Longrightarrow> log_return c sigma 0 = fsub (mu c) (fmul (Fin 0.5) (fsquare sigma))"
  by (simp add: log_return_def fmul_finite_zero fadd_zero_right)

text \<open>
  Claim C2. For valid inputs the simulation returns a matrix whose entry at path
  \<open>sim\<close> and step \<open>t\<close> is \<open>mu - 0.5 * sigma^2 + sigma * z\<close> with
  \<open>sigma = sqrt(exp(log_sigma2))\<close>, where \<open>log_sigma2\<close> is the log-variance just
  updated with the shock \<open>z\<close> of that step, the draw number \<open>sim * T + t\<close>. With
  \<open>z = 0\<close> and a finite \<open>sigma\<close> the entry is \<open>mu - 0.5 * sigma^2\<close>.
\<close>

theorem stored_log_return:
  assumes "read_coeffs (params fit) = Inr c"
      and "last_item (conditional_volatility fit) = Inr last_vol"
      and "0 \<le> n" and "0 \<le> T" and "sim < nat n" and "t < nat T"
  shows "\<exists>m g'. monte_carlo_simulation fit n T g = Inr (m, g') \<and>
           (let z = g (sim * nat T + t);
                previous = path_log_sigma2 c last_vol (\<lambda>j. g (sim * nat T + j)) t;
                log_sigma2 = update_log_sigma2 c z previous;
                sigma = fsqrt (fexp log_sigma2)
            in rows m ! sim ! t
                 = fadd (fsub (mu c) (fmul (Fin 0.5) (fmul sigma sigma))) (fmul sigma (Fin z))
               \<and> (z = 0 \<and> is_finite sigma \<longrightarrow>
                    rows m ! sim ! t = fsub (mu c) (fmul (Fin 0.5) (fmul sigma sigma))))"
proof -
  let ?z = "g (sim * nat T + t)"
  let ?sigma = "fsqrt (fexp (update_log_sigma2 c ?z
                   (path_log_sigma2 c last_vol (\<lambda>j. g (sim * nat T + j)) t)))"
  let ?m = "\<lparr>nrows = nat n, ncols = nat T, rows = all_rows c last_vol g (nat n) (nat T)\<rparr>"
  have r: "monte_carlo_simulation fit n T g = Inr (?m, \<lambda>k. g (nat n * nat T + k))"
    by (rule mc_result [OF assms(1-4)])
  have e: "rows ?m ! sim ! t = log_return c ?sigma ?z"
    using all_rows_entry [OF assms(5,6), of c last_vol g]
    by (simp add: path_return_def volatility_def)
  have f: "rows ?m ! sim ! t
           = fadd (fsub (mu c) (fmul (Fin 0.5) (fmul ?sigma ?sigma))) (fmul ?sigma (Fin ?z))"
    unfolding e log_return_def fsquare_def ..
  have z: "rows ?m ! sim ! t = fsub (mu c) (fmul (Fin 0.5) (fmul ?sigma ?sigma))"
    if "?z = 0 \<and> is_finite ?sigma"
  proof -
    note z0 = that [THEN conjunct1] and fin = that [THEN conjunct2]
    have "log_return c ?sigma 0 = fsub (mu c) (fmul (Fin 0.5) (fsquare ?sigma))"
      by (rule log_return_zero_shock [OF fin])
    then have "log_return c ?sigma ?z = fsub (mu c) (fmul (Fin 0.5) (fsquare ?sigma))"
      by (simp only: z0)
    then show ?thesis unfolding e fsquare_def .
  qed
  have "let z = ?z;
            previous = path_log_sigma2 c last_vol (\<lambda>j. g (sim * nat T + j)) t;
            log_sigma2 = update_log_sigma2 c z previous;
            sigma = fsqrt (fexp log_sigma2)
        in rows ?m ! sim ! t
             = fadd (fsub (mu c) (fmul (Fin 0.5) (fmul sigma sigma))) (fmul sigma (Fin z))
           \<and> (z = 0 \<and> is_finite sigma \<longrightarrow>
                rows ?m ! sim ! t = fsub (mu c) (fmul (Fin 0.5) (fmul sigma sigma)))"
    unfolding Let_def using f z by blast
  with r show ?thesis by blast
qed

theorem stored_log_return_witness:
  "read_coeffs (params scenario_fit) = Inr scenario_coeffs
   \<and> last_item (conditional_volatility scenario_fit) = Inr (Fin 0.015)
   \<and> (0::int) \<le> 1 \<and> (0::nat) < nat 1
   \<and> (\<exists>m g'. monte_carlo_simulation scenario_fit 1 1 (\<lambda>k. 0) = Inr (m, g') \<and>
         rows m ! 0 ! 0
         = Fin (0.0005 - 0.5 * (sqrt (exp (- 0.1 + 0.15 * (0 - sqrt (2 / pi)) + 0.9 * ln (0.015 * 0.015)))
                               * sqrt (exp (- 0.1 + 0.15 * (0 - sqrt (2 / pi)) + 0.9 * ln (0.015 * 0.015))))))"
proof -
  define S where "S = fsqrt (fexp (update_log_sigma2 scenario_coeffs 0 (flog (fsquare (Fin 0.015)))))"
  have "fexp (Fin (- 0.1 + 0.15 * (0 - sqrt (2 / pi)) + 0.9 * ln (0.015 * 0.015)))
        = Fin (exp (- 0.1 + 0.15 * (0 - sqrt (2 / pi)) + 0.9 * ln (0.015 * 0.015)))"
    by (rule fexp_nonpos [OF scenario_first_log_sigma2_nonpos])
  then have S: "S = Fin (sqrt (exp (- 0.1 + 0.15 * (0 - sqrt (2 / pi)) + 0.9 * ln (0.015 * 0.015))))"
    unfolding S_def scenario_first_log_sigma2 by simp
  have fin: "(0::real) = 0 \<and> is_finite S" unfolding S by simp
  have h3: "(0::int) \<le> 1" by simp
  have h5: "(0::nat) < nat 1" by simp
  from stored_log_return [OF scenario_read_coeffs scenario_last_vol h3 h3 h5 h5, of "\<lambda>k. 0"]
  have "\<exists>m g'. monte_carlo_simulation scenario_fit 1 1 (\<lambda>k. 0) = Inr (m, g') \<and>
          (rows m ! 0 ! 0
             = fadd (fsub (mu scenario_coeffs) (fmul (Fin 0.5) (fmul S S))) (fmul S (Fin 0))
           \<and> ((0::real) = 0 \<and> is_finite S \<longrightarrow>
                rows m ! 0 ! 0 = fsub (mu scenario_coeffs) (fmul (Fin 0.5) (fmul S S))))"
    unfolding Let_def path_log_sigma2.simps S_def mult_zero_left add_0_left .
  with fin obtain m g' where r: "monte_carlo_simulation scenario_fit 1 1 (\<lambda>k. 0) = Inr (m, g')"
    and e: "rows m ! 0 ! 0 = fsub (mu scenario_coeffs) (fmul (Fin 0.5) (fmul S S))"
    by blast
  have "fsub (mu scenario_coeffs) (fmul (Fin 0.5) (fmul S S))
         = Fin (0.0005 - 0.5 * (sqrt (exp (- 0.1 + 0.15 * (0 - sqrt (2 / pi)) + 0.9 * ln (0.015 * 0.015)))
                               * sqrt (exp (- 0.1 + 0.15 * (0 - sqrt (2 / pi)) + 0.9 * ln (0.015 * 0.015)))))"
    unfolding S by (simp add: scenario_coeffs_def fsub_def)
  with e r have "\<exists>m g'. monte_carlo_simulation scenario_fit 1 1 (\<lambda>k. 0) = Inr (m, g') \<and>
         rows m ! 0 ! 0
         = Fin (0.0005 - 0.5 * (sqrt (exp (- 0.1 + 0.15 * (0 - sqrt (2 / pi)) + 0.9 * ln (0.015 * 0.015)))
                               * sqrt (exp (- 0.1 + 0.15 * (0 - sqrt (2 / pi)) + 0.9 * ln (0.015 * 0.015)))))"
    by auto
  with scenario_read_coeffs scenario_last_vol h3 h5 show ?thesis by blast
qed

section \<open>The log-variance recursion in the simulation\<close>

lemma sim_loop_append:
  "sim_loop c last_vol T (xs @ ys) st = sim_loop c last_vol T ys (sim_loop c last_vol T xs st)"
  by (induction xs arbitrary: st) simp_all

lemma sim_loop_Suc:
  "sim_loop c last_vol T [0..<Suc sim] st
   = snd (path_body c last_vol T sim (sim_loop c last_vol T [0..<sim] st))"
  by (simp add: sim_loop_append)

lemma gen_before_path:
  assumes "sim < length (rows a)" and "\<forall>r\<in>set (rows a). length r = T"
  shows "gen (sim_loop c last_vol T [0..<sim] \<lparr>gen = g, simulated_returns = a\<rparr>)
         = (\<lambda>j. g (sim * T + j))"
proof -
  let ?ini = "\<lparr>gen = g, simulated_returns = a\<rparr>"
  have p1: "distinct [0..<sim]" by simp
  have p2: "\<forall>s\<in>set [0..<sim]. s < length (rows (simulated_returns ?ini))" using assms(1) by simp
  have p3: "\<forall>r\<in>set (rows (simulated_returns ?ini)). length r = T" using assms(2) by simp
  show ?thesis
    using sim_loop_order [where c = c and last_vol = last_vol, OF p1 p2 p3, THEN conjunct1] by simp
qed

lemma path_init_log_sigma2: "fst (path_init last_vol st) = flog (fmul last_vol last_vol)"
  by (simp add: path_init_def fsquare_def)

lemma time_loop_spec:
  "fst (time_loop c sim [0..<k] (path_init last_vol st))
   = spec_log_sigma2 (omega c) [alpha1 c, alpha2 c] [beta1 c, beta2 c] last_vol (gen st) k"
  unfolding path_init_def path_log_sigma2_spec [symmetric]
  by (rule time_loop_log_sigma2 [THEN conjunct1])

text \<open>
  Claim C1. For valid inputs the matrix the simulation returns is the one its outer loop
  leaves after all paths. The loop enters path \<open>sim\<close> in the state the paths before it
  leave, and there the path
  \<^item> starts its log-variance at \<open>ln(last_volatility^2)\<close>,
  \<^item> has after \<open>k\<close> steps of its inner loop the log-variance of the specification's
    recursion \<open>omega + sum_i alpha_i * (|z| - sqrt(2/pi)) + (sum_j beta_j) * log_sigma2\<close>
    on its own shocks, the draws \<open>sim * T, sim * T + 1, ...\<close>, every step with one shock
    and the one previous value,
  \<^item> stores at step \<open>t\<close> the return computed from the log-variance after \<open>t + 1\<close>
    steps.
  In particular, with \<open>forecast_period = 1\<close> and a shock of \<open>0\<close> the log-variance
  after the step is
  \<open>omega + (alpha1 + alpha2) * (0 - sqrt(2/pi)) + (beta1 + beta2) * ln(last_volatility^2)\<close>.
\<close>

theorem simulation_log_variance_recursion:
  assumes "read_coeffs (params fit) = Inr c"
      and "last_item (conditional_volatility fit) = Inr last_vol"
      and "0 \<le> n" and "0 \<le> T"
  shows "\<exists>m g' zeros.
           np_zeros n T = Inr zeros \<and> monte_carlo_simulation fit n T g = Inr (m, g')
         \<and> m = simulated_returns
                 (sim_loop c last_vol (nat T) [0..<nat n] \<lparr>gen = g, simulated_returns = zeros\<rparr>)
         \<and> (\<forall>sim<nat n.
               let st = sim_loop c last_vol (nat T) [0..<sim] \<lparr>gen = g, simulated_returns = zeros\<rparr>;
                   z = (\<lambda>j. g (sim * nat T + j));
                   spec = spec_log_sigma2 (omega c) [alpha1 c, alpha2 c] [beta1 c, beta2 c] last_vol z
               in sim_loop c last_vol (nat T) [0..<Suc sim] \<lparr>gen = g, simulated_returns = zeros\<rparr>
                    = snd (path_body c last_vol (nat T) sim st)
                \<and> fst (path_init last_vol st) = flog (fmul last_vol last_vol)
                \<and> (\<forall>k. fst (time_loop c sim [0..<k] (path_init last_vol st)) = spec k)
                \<and> fst (path_body c last_vol (nat T) sim st) = spec (nat T)
                \<and> (\<forall>t<nat T. rows m ! sim ! t = log_return c (volatility (spec (Suc t))) (z t))
                \<and> (T = 1 \<and> g sim = 0 \<longrightarrow>
                     fst (path_body c last_vol (nat T) sim st)
                     = fadd (fadd (omega c)
                                  (fmul (fadd (alpha1 c) (alpha2 c))
                                        (fsub (Fin 0) (fsqrt (Fin (2 / pi))))))
                            (fmul (fadd (beta1 c) (beta2 c)) (flog (fmul last_vol last_vol)))))"
proof -
  let ?N = "nat n" and ?T = "nat T"
  let ?zeros = "\<lparr>nrows = ?N, ncols = ?T, rows = replicate ?N (replicate ?T (Fin 0))\<rparr>"
  let ?ini = "\<lparr>gen = g, simulated_returns = ?zeros\<rparr>"
  let ?m = "\<lparr>nrows = ?N, ncols = ?T, rows = all_rows c last_vol g ?N ?T\<rparr>"
  have zs: "np_zeros n T = Inr ?zeros" using assms(3,4) by (simp add: np_zeros_def)
  have r: "monte_carlo_simulation fit n T g = Inr (?m, \<lambda>k. g (?N * ?T + k))"
    by (rule mc_result [OF assms])
  have l: "length (rows ?zeros) = ?N" and ls: "\<forall>r\<in>set (rows ?zeros). length r = ?T" by simp_all
  have fin: "?m = simulated_returns (sim_loop c last_vol ?T [0..<?N] ?ini)"
    unfolding sim_loop_upt [OF l ls] by simp
  have per_path:
    "let st = sim_loop c last_vol ?T [0..<sim] ?ini;
         z = (\<lambda>j. g (sim * ?T + j));
         spec = spec_log_sigma2 (omega c) [alpha1 c, alpha2 c] [beta1 c, beta2 c] last_vol z
     in sim_loop c last_vol ?T [0..<Suc sim] ?ini = snd (path_body c last_vol ?T sim st)
      \<and> fst (path_init last_vol st) = flog (fmul last_vol last_vol)
      \<and> (\<forall>k. fst (time_loop c sim [0..<k] (path_init last_vol st)) = spec k)
      \<and> fst (path_body c last_vol ?T sim st) = spec ?T
      \<and> (\<forall>t<?T. rows ?m ! sim ! t = log_return c (volatility (spec (Suc t))) (z t))
      \<and> (T = 1 \<and> g sim = 0 \<longrightarrow>
           fst (path_body c last_vol ?T sim st)
           = fadd (fadd (omega c)
                        (fmul (fadd (alpha1 c) (alpha2 c)) (fsub (Fin 0) (fsqrt (Fin (2 / pi))))))
                  (fmul (fadd (beta1 c) (beta2 c)) (flog (fmul last_vol last_vol))))"
    if sim: "sim < ?N" for sim
  proof -
    let ?st = "sim_loop c last_vol ?T [0..<sim] ?ini"
    let ?z = "\<lambda>j. g (sim * ?T + j)"
    let ?spec = "spec_log_sigma2 (omega c) [alpha1 c, alpha2 c] [beta1 c, beta2 c] last_vol ?z"
    have sl: "sim < length (rows ?zeros)" using sim by simp
    have gs: "gen ?st = ?z" by (rule gen_before_path [OF sl ls])
    have c1: "sim_loop c last_vol ?T [0..<Suc sim] ?ini = snd (path_body c last_vol ?T sim ?st)"
      by (rule sim_loop_Suc)
    have c2: "fst (path_init last_vol ?st) = flog (fmul last_vol last_vol)"
      by (rule path_init_log_sigma2)
    have c3: "fst (time_loop c sim [0..<k] (path_init last_vol ?st)) = ?spec k" for k
      using time_loop_spec [of c sim k last_vol ?st] unfolding gs .
    have c4: "fst (path_body c last_vol ?T sim ?st) = ?spec ?T"
      unfolding path_body_def by (rule c3)
    have c5: "rows ?m ! sim ! t = log_return c (volatility (?spec (Suc t))) (?z t)" if "t < ?T" for t
      using all_rows_entry [OF sim that, of c last_vol g]
      by (simp only: path_return_def path_log_sigma2_spec ndarray.simps)
    have c6: "fst (path_body c last_vol ?T sim ?st)
           = fadd (fadd (omega c)
                        (fmul (fadd (alpha1 c) (alpha2 c)) (fsub (Fin 0) (fsqrt (Fin (2 / pi))))))
                  (fmul (fadd (beta1 c) (beta2 c)) (flog (fmul last_vol last_vol)))"
      if h: "T = 1 \<and> g sim = 0"
    proof -
      from h have T1: "?T = Suc 0" and z0: "?z 0 = 0" by simp_all
      have "fst (path_body c last_vol ?T sim ?st) = ?spec ?T" by (rule c4)
      also have "?spec ?T = ?spec (Suc 0)" by (simp only: T1)
      also have "\<dots> = path_log_sigma2 c last_vol ?z (Suc 0)"
        by (simp only: path_log_sigma2_spec)
      also have "\<dots> = update_log_sigma2 c 0 (flog (fsquare last_vol))"
        using z0 by simp
      also have "\<dots> = fadd (fadd (omega c)
                        (fmul (fadd (alpha1 c) (alpha2 c)) (fsub (Fin 0) (fsqrt (Fin (2 / pi))))))
                  (fmul (fadd (beta1 c) (beta2 c)) (flog (fmul last_vol last_vol)))"
        by (simp add: update_log_sigma2_zero sqrt_2_over_pi_def fsquare_def)
      finally show ?thesis .
    qed
    show ?thesis unfolding Let_def using c1 c2 c3 c4 c5 c6 by blast
  qed
  from zs r fin per_path show ?thesis by blast
qed


theorem simulation_log_variance_recursion_witness:
  "read_coeffs (params scenario_fit) = Inr scenario_coeffs
   \<and> last_item (conditional_volatility scenario_fit) = Inr (Fin 0.015)
   \<and> (0::int) \<le> 1 \<and> (0::nat) < nat 1
   \<and> (\<exists>m g'. monte_carlo_simulation scenario_fit 1 1 (\<lambda>k. 0) = Inr (m, g')
         \<and> m = simulated_returns
                 (sim_loop scenario_coeffs (Fin 0.015) 1 [0..<1]
                    \<lparr>gen = (\<lambda>k. 0),
                       simulated_returns = \<lparr>nrows = 1, ncols = 1, rows = [[Fin 0]]\<rparr>\<rparr>)
         \<and> fst (path_body scenario_coeffs (Fin 0.015) 1 0
                  \<lparr>gen = (\<lambda>k. 0),
                     simulated_returns = \<lparr>nrows = 1, ncols = 1, rows = [[Fin 0]]\<rparr>\<rparr>)
           = Fin (- 0.1 + (0.1 + 0.05) * (0 - sqrt (2 / pi)) + (0.85 + 0.05) * ln (0.015 * 0.015)))"
proof -
  let ?zeros = "\<lparr>nrows = 1, ncols = 1, rows = [[Fin 0]]\<rparr>"
  let ?ini = "\<lparr>gen = (\<lambda>k. 0), simulated_returns = ?zeros\<rparr>"
  have h: "(0::int) \<le> 1" and s: "(0::nat) < nat 1" by simp_all
  have n1: "nat 1 = (1::nat)" by simp
  have zs: "np_zeros 1 1 = Inr ?zeros" by (simp add: np_zeros_def)
  from simulation_log_variance_recursion [OF scenario_read_coeffs scenario_last_vol h h, of "\<lambda>k. 0"]
  obtain m g' zeros where z: "np_zeros 1 1 = Inr zeros"
    and r: "monte_carlo_simulation scenario_fit 1 1 (\<lambda>k. 0) = Inr (m, g')"
    and f: "m = simulated_returns
                 (sim_loop scenario_coeffs (Fin 0.015) (nat 1) [0..<nat 1]
                    \<lparr>gen = (\<lambda>k. 0), simulated_returns = zeros\<rparr>)"
    and p: "\<forall>sim<nat 1.
               let st = sim_loop scenario_coeffs (Fin 0.015) (nat 1) [0..<sim]
                          \<lparr>gen = (\<lambda>k. 0), simulated_returns = zeros\<rparr>;
                   z = (\<lambda>j. (\<lambda>k. 0) (sim * nat 1 + j));
                   spec = spec_log_sigma2 (omega scenario_coeffs)
                            [alpha1 scenario_coeffs, alpha2 scenario_coeffs]
                            [beta1 scenario_coeffs, beta2 scenario_coeffs] (Fin 0.015) z
               in sim_loop scenario_coeffs (Fin 0.015) (nat 1) [0..<Suc sim]
                    \<lparr>gen = (\<lambda>k. 0), simulated_returns = zeros\<rparr>
                    = snd (path_body scenario_coeffs (Fin 0.015) (nat 1) sim st)
                \<and> fst (path_init (Fin 0.015) st) = flog (fmul (Fin 0.015) (Fin 0.015))
                \<and> (\<forall>k. fst (time_loop scenario_coeffs sim [0..<k] (path_init (Fin 0.015) st)) = spec k)
                \<and> fst (path_body scenario_coeffs (Fin 0.015) (nat 1) sim st) = spec (nat 1)
                \<and> (\<forall>t<nat 1. rows m ! sim ! t
                       = log_return scenario_coeffs (volatility (spec (Suc t))) (z t))
                \<and> ((1::int) = 1 \<and> (\<lambda>k. 0::real) sim = 0 \<longrightarrow>
                     fst (path_body scenario_coeffs (Fin 0.015) (nat 1) sim st)
                     = fadd (fadd (omega scenario_coeffs)
                                  (fmul (fadd (alpha1 scenario_coeffs) (alpha2 scenario_coeffs))
                                        (fsub (Fin 0) (fsqrt (Fin (2 / pi))))))
                            (fmul (fadd (beta1 scenario_coeffs) (beta2 scenario_coeffs))
                                  (flog (fmul (Fin 0.015) (Fin 0.015)))))"
    by blast
  from z zs have zz: "zeros = ?zeros" by simp
  have st0: "sim_loop scenario_coeffs (Fin 0.015) (nat 1) [0..<0] ?ini = ?ini" by simp
  from p s have "fst (path_body scenario_coeffs (Fin 0.015) (nat 1) 0 ?ini)
                 = fadd (fadd (omega scenario_coeffs)
                                  (fmul (fadd (alpha1 scenario_coeffs) (alpha2 scenario_coeffs))
                                        (fsub (Fin 0) (fsqrt (Fin (2 / pi))))))
                            (fmul (fadd (beta1 scenario_coeffs) (beta2 scenario_coeffs))
                                  (flog (fmul (Fin 0.015) (Fin 0.015))))"
    unfolding zz Let_def using st0 by auto
  then have v: "fst (path_body scenario_coeffs (Fin 0.015) 1 0 ?ini)
           = Fin (- 0.1 + (0.1 + 0.05) * (0 - sqrt (2 / pi)) + (0.85 + 0.05) * ln (0.015 * 0.015))"
    by (simp add: scenario_coeffs_def fsub_def)
  from f have f': "m = simulated_returns (sim_loop scenario_coeffs (Fin 0.015) 1 [0..<1] ?ini)"
    unfolding zz n1 .
  have "\<exists>m g'. monte_carlo_simulation scenario_fit 1 1 (\<lambda>k. 0) = Inr (m, g')
         \<and> m = simulated_returns (sim_loop scenario_coeffs (Fin 0.015) 1 [0..<1] ?ini)
         \<and> fst (path_body scenario_coeffs (Fin 0.015) 1 0 ?ini)
           = Fin (- 0.1 + (0.1 + 0.05) * (0 - sqrt (2 / pi)) + (0.85 + 0.05) * ln (0.015 * 0.015))"
    by (rule exI [of _ m], rule exI [of _ g'], intro conjI r f' v)
  then show ?thesis
    by (intro conjI scenario_read_coeffs scenario_last_vol h s)
qed

section \<open>Shape and population of the result\<close>

lemma length_all_rows: "length (all_rows c last_vol g N T) = N"
  by (simp add: all_rows_def)

lemma all_rows_row_length: "\<forall>r\<in>set (all_rows c last_vol g N T). length r = T"
  by (auto simp: all_rows_def path_row_def)

text \<open>
  Claim C3. For valid inputs with \<open>n_simulations = N >= 1\<close> and
  \<open>forecast_period = T >= 1\<close> the simulation returns a matrix of shape \<open>N\<close> by
  \<open>T\<close>: \<open>N\<close> rows, each of \<open>T\<close> entries. Every entry is the return the loop body
  computes at that path and step, and nothing of the initial fill is left: started on any
  array of that shape in place of the zeros, the loops produce the same matrix.
\<close>

theorem result_shape_and_population:
  assumes "read_coeffs (params fit) = Inr c"
      and "last_item (conditional_volatility fit) = Inr last_vol"
      and "1 \<le> n" and "1 \<le> T"
  shows "\<exists>m g'. monte_carlo_simulation fit n T g = Inr (m, g')
           \<and> nrows m = nat n \<and> ncols m = nat T
           \<and> length (rows m) = nat n \<and> (\<forall>r\<in>set (rows m). length r = nat T)
           \<and> (\<forall>s<nat n. \<forall>t<nat T.
                 rows m ! s ! t = path_return c last_vol (\<lambda>j. g (s * nat T + j)) t)
           \<and> (\<forall>a. nrows a = nat n \<and> ncols a = nat T \<and> length (rows a) = nat n
                    \<and> (\<forall>r\<in>set (rows a). length r = nat T)
                 \<longrightarrow> simulated_returns
                       (sim_loop c last_vol (nat T) [0..<nat n] \<lparr>gen = g, simulated_returns = a\<rparr>)
                     = m)"
proof -
  let ?m = "\<lparr>nrows = nat n, ncols = nat T, rows = all_rows c last_vol g (nat n) (nat T)\<rparr>"
  from assms(3,4) have n: "0 \<le> n" and T: "0 \<le> T" by simp_all
  have r: "monte_carlo_simulation fit n T g = Inr (?m, \<lambda>k. g (nat n * nat T + k))"
    by (rule mc_result [OF assms(1,2) n T])
  have e: "\<forall>s<nat n. \<forall>t<nat T.
             rows ?m ! s ! t = path_return c last_vol (\<lambda>j. g (s * nat T + j)) t"
    by (simp add: all_rows_entry)
  have w: "simulated_returns
             (sim_loop c last_vol (nat T) [0..<nat n] \<lparr>gen = g, simulated_returns = a\<rparr>) = ?m"
    if a: "nrows a = nat n \<and> ncols a = nat T \<and> length (rows a) = nat n
           \<and> (\<forall>r\<in>set (rows a). length r = nat T)" for a
  proof -
    from a have l: "length (rows a) = nat n" and ls: "\<forall>r\<in>set (rows a). length r = nat T"
      by blast+
    have "a\<lparr>rows := all_rows c last_vol g (nat n) (nat T)\<rparr> = ?m"
      using a by (intro ndarray.equality) simp_all
    then show ?thesis
      unfolding sim_loop_upt [OF l ls] by simp
  qed
  have s: "nrows ?m = nat n \<and> ncols ?m = nat T \<and> length (rows ?m) = nat n
           \<and> (\<forall>r\<in>set (rows ?m). length r = nat T)"
    using all_rows_row_length [of c last_vol g "nat n" "nat T"] by (simp add: length_all_rows)
  from r s e w show ?thesis by blast
qed

lemma lengths_two:
  assumes "length xs = 2" and "\<forall>r\<in>set xs. length r = k"
  shows "map length xs = [k, k]"
proof -
  from assms(1) obtain x y where "xs = [x, y]"
    by (auto simp: length_Suc_conv numeral_2_eq_2)
  with assms(2) show ?thesis by simp
qed

theorem result_shape_and_population_witness:
  "read_coeffs (params scenario_fit) = Inr scenario_coeffs
   \<and> last_item (conditional_volatility scenario_fit) = Inr (Fin 0.015)
   \<and> (1::int) \<le> 2 \<and> (1::int) \<le> 3
   \<and> (\<exists>m g'. monte_carlo_simulation scenario_fit 2 3 real = Inr (m, g')
         \<and> nrows m = 2 \<and> ncols m = 3 \<and> map length (rows m) = [3, 3]
         \<and> simulated_returns
             (sim_loop scenario_coeffs (Fin 0.015) 3 [0..<2]
                \<lparr>gen = real,
                   simulated_returns = \<lparr>nrows = 2, ncols = 3,
                                         rows = [[NaN, NaN, NaN], [NaN, NaN, NaN]]\<rparr>\<rparr>) = m)"
proof -
  let ?a = "\<lparr>nrows = 2, ncols = 3, rows = [[NaN, NaN, NaN], [NaN, NaN, NaN]]\<rparr>"
  have h3: "(1::int) \<le> 2" and h4: "(1::int) \<le> 3" by simp_all
  have a: "nrows ?a = nat 2 \<and> ncols ?a = nat 3 \<and> length (rows ?a) = nat 2
           \<and> (\<forall>r\<in>set (rows ?a). length r = nat 3)" by simp
  from result_shape_and_population [OF scenario_read_coeffs scenario_last_vol h3 h4, of real]
  obtain m g' where r: "monte_carlo_simulation scenario_fit 2 3 real = Inr (m, g')"
    and s: "nrows m = nat 2" "ncols m = nat 3" "length (rows m) = nat 2"
           "\<forall>r\<in>set (rows m). length r = nat 3"
    and w: "\<forall>a. nrows a = nat 2 \<and> ncols a = nat 3 \<and> length (rows a) = nat 2
                    \<and> (\<forall>r\<in>set (rows a). length r = nat 3)
                 \<longrightarrow> simulated_returns
                       (sim_loop scenario_coeffs (Fin 0.015) (nat 3) [0..<nat 2]
                          \<lparr>gen = real, simulated_returns = a\<rparr>) = m"
    by blast
  from w a have "simulated_returns
       (sim_loop scenario_coeffs (Fin 0.015) (nat 3) [0..<nat 2] \<lparr>gen = real, simulated_returns = ?a\<rparr>) = m"
    by blast
  then have w': "simulated_returns
       (sim_loop scenario_coeffs (Fin 0.015) 3 [0..<2] \<lparr>gen = real, simulated_returns = ?a\<rparr>) = m"
    by simp
  from s have l: "map length (rows m) = [3, 3]" using lengths_two [of "rows m" 3] by simp
  from s have "nrows m = 2" "ncols m = 3" by simp_all
  with r l w' scenario_read_coeffs scenario_last_vol show ?thesis by simp
qed

section \<open>Determinism\<close>

lemma draw_index_bound: "s < N \<Longrightarrow> k < T \<Longrightarrow> s * T + k < N * (T::nat)"
proof -
  assume s: "s < N" and k: "k < T"
  have "s * T + k < s * T + T" using k by simp
  also have "\<dots> = Suc s * T" by simp
  also have "\<dots> \<le> N * T" using s by (intro mult_le_mono1) simp
  finally show ?thesis .
qed

lemma all_rows_cong:
  assumes "\<And>i. i < N * T \<Longrightarrow> g1 i = g2 i"
  shows "all_rows c last_vol g1 N T = all_rows c last_vol g2 N T"
proof -
  have "path_row c last_vol (\<lambda>k. g1 (s * T + k)) T = path_row c last_vol (\<lambda>k. g2 (s * T + k)) T"
    if "s < N" for s
    by (rule path_row_cong) (rule assms, rule draw_index_bound [OF that])
  then show ?thesis unfolding all_rows_def by simp
qed

lemma read_coeffs_cong:
  assumes "\<forall>k\<in>{''mu'', ''omega'', ''alpha[1]'', ''alpha[2]'', ''beta[1]'', ''beta[2]''}. ps1 k = ps2 k"
  shows "read_coeffs ps1 = read_coeffs ps2"
proof -
  have m: "ps1 k = ps2 k"
    if "k \<in> {''mu'', ''omega'', ''alpha[1]'', ''alpha[2]'', ''beta[1]'', ''beta[2]''}" for k
    using assms that by (rule bspec)
  have e1: "ps1 ''mu'' = ps2 ''mu''" by (rule m) simp
  have e2: "ps1 ''omega'' = ps2 ''omega''" by (rule m) simp
  have e3: "ps1 ''alpha[1]'' = ps2 ''alpha[1]''" by (rule m) simp
  have e4: "ps1 ''alpha[2]'' = ps2 ''alpha[2]''" by (rule m) simp
  have e5: "ps1 ''beta[1]'' = ps2 ''beta[1]''" by (rule m) simp
  have e6: "ps1 ''beta[2]'' = ps2 ''beta[2]''" by (rule m) simp
  show ?thesis unfolding read_coeffs_def getitem_def e1 e2 e3 e4 e5 e6 ..
qed

text \<open>
  Claim C4. The result is a function of the six parameters, the last volatility, the two
  sizes and the first \<open>n_simulations * forecast_period\<close> draws of the generator: two
  invocations that agree on these return the same matrix, or fail with the same error.
\<close>

theorem simulation_deterministic:
  assumes "\<forall>k\<in>{''mu'', ''omega'', ''alpha[1]'', ''alpha[2]'', ''beta[1]'', ''beta[2]''}.
             params fit1 k = params fit2 k"
      and "last_item (conditional_volatility fit1) = last_item (conditional_volatility fit2)"
      and "\<forall>i < nat n * nat T. g1 i = g2 i"
  shows "map_sum id fst (monte_carlo_simulation fit1 n T g1)
         = map_sum id fst (monte_carlo_simulation fit2 n T g2)"
proof -
  note rc = read_coeffs_cong [OF assms(1)]
  show ?thesis
  proof (cases "read_coeffs (params fit2)")
    case (Inl e)
    then show ?thesis by (simp add: monte_carlo_simulation_def rc)
  next
    case c: (Inr c)
    show ?thesis
    proof (cases "n < 0 \<or> T < 0")
      case True
      then have "np_zeros n T = Inl ValueError" by (simp add: np_zeros_def)
      then show ?thesis by (simp add: monte_carlo_simulation_def rc c)
    next
      case False
      then have n: "0 \<le> n" and T: "0 \<le> T" by simp_all
      show ?thesis
      proof (cases "last_item (conditional_volatility fit2)")
        case (Inl e)
        then show ?thesis
          using False by (simp add: monte_carlo_simulation_def rc c np_zeros_def assms(2))
      next
        case lv: (Inr last_vol)
        have c1: "read_coeffs (params fit1) = Inr c" using rc c by simp
        have lv1: "last_item (conditional_volatility fit1) = Inr last_vol" using assms(2) lv by simp
        have "all_rows c last_vol g1 (nat n) (nat T) = all_rows c last_vol g2 (nat n) (nat T)"
          by (rule all_rows_cong) (use assms(3) in blast)
        then show ?thesis
          unfolding mc_result [OF c1 lv1 n T] mc_result [OF c lv n T] by simp
      qed
    qed
  qed
qed

theorem simulation_deterministic_witness:
  "params scenario_fit ''mu'' = params (scenario_fit\<lparr>conditional_volatility := [Fin 0.015]\<rparr>) ''mu''
   \<and> last_item (conditional_volatility scenario_fit) = last_item [Fin 0.015]
   \<and> map_sum id fst (monte_carlo_simulation scenario_fit 1 2 (\<lambda>i. if i < 2 then 1 else 5))
     = map_sum id fst (monte_carlo_simulation (scenario_fit\<lparr>conditional_volatility := [Fin 0.015]\<rparr>) 1 2
                         (\<lambda>i. if i < 2 then 1 else 7))"
proof -
  let ?f2 = "scenario_fit\<lparr>conditional_volatility := [Fin 0.015]\<rparr>"
  have h1: "\<forall>k\<in>{''mu'', ''omega'', ''alpha[1]'', ''alpha[2]'', ''beta[1]'', ''beta[2]''}.
             params scenario_fit k = params ?f2 k" by simp
  have h2: "last_item (conditional_volatility scenario_fit) = last_item (conditional_volatility ?f2)"
    by (simp add: last_item_def scenario_fit_def)
  have h3: "\<forall>i < nat 1 * nat 2. (if i < 2 then 1 else (5::real)) = (if i < 2 then 1 else 7)"
    by simp
  from simulation_deterministic [OF h1 h2 h3] h2 show ?thesis by simp
qed

section \<open>Independence of the paths\<close>

text \<open>
  The outer loop run over the paths in another order, with a generator arranged so that
  the path computed in place \<open>j\<close> still receives its own draws.
\<close>

lemma sim_loop_permuted:
  assumes d: "distinct order" and so: "set order = {0..<N}"
      and len: "length (rows a) = N" and lens: "\<forall>r\<in>set (rows a). length r = T"
      and own: "\<forall>j<N. \<forall>k<T. g2 (j * T + k) = g (order ! j * T + k)"
  shows "simulated_returns (sim_loop c last_vol T order \<lparr>gen = g2, simulated_returns = a\<rparr>)
         = a\<lparr>rows := all_rows c last_vol g N T\<rparr>"
proof -
  let ?st = "\<lparr>gen = g2, simulated_returns = a\<rparr>"
  let ?fin = "sim_loop c last_vol T order ?st"
  have lo: "length order = N"
    using distinct_card [OF d] so by simp
  have p2: "\<forall>s\<in>set order. s < length (rows (simulated_returns ?st))"
    using so len by simp
  have p3: "\<forall>r\<in>set (rows (simulated_returns ?st)). length r = T"
    using lens by simp
  note res = sim_loop_order [where c = c and last_vol = last_vol, OF d p2 p3]
  have n: "nrows (simulated_returns ?fin) = nrows a"
    using res [THEN conjunct2, THEN conjunct1] by simp
  have m: "ncols (simulated_returns ?fin) = ncols a"
    using res [THEN conjunct2, THEN conjunct2, THEN conjunct1] by simp
  have l: "length (rows (simulated_returns ?fin)) = N"
    using res [THEN conjunct2, THEN conjunct2, THEN conjunct2, THEN conjunct1] len by simp
  have r: "rows (simulated_returns ?fin) ! s = path_row c last_vol (\<lambda>k. g (s * T + k)) T"
    if "s < N" for s
  proof -
    from that so have "s \<in> set order" by simp
    then obtain j where j: "j < length order" and oj: "order ! j = s"
      by (auto simp: in_set_conv_nth)
    from res [THEN conjunct2, THEN conjunct2, THEN conjunct2, THEN conjunct2, THEN conjunct1] j
    have "rows (simulated_returns ?fin) ! (order ! j)
          = path_row c last_vol (\<lambda>k. gen ?st (j * T + k)) T"
      by blast
    then have "rows (simulated_returns ?fin) ! s = path_row c last_vol (\<lambda>k. g2 (j * T + k)) T"
      by (simp add: oj)
    also have "\<dots> = path_row c last_vol (\<lambda>k. g (s * T + k)) T"
    proof (rule path_row_cong)
      fix k assume "k < T"
      with own j lo have "g2 (j * T + k) = g (order ! j * T + k)" by simp
      then show "g2 (j * T + k) = g (s * T + k)" by (simp add: oj)
    qed
    finally show ?thesis .
  qed
  have R: "rows (simulated_returns ?fin) = all_rows c last_vol g N T"
    unfolding all_rows_def
    by (rule nth_equalityI) (simp_all add: l r)
  show ?thesis
    by (rule ndarray.equality) (simp_all add: n m R)
qed

text \<open>
  Claim C5. Row \<open>s\<close> of the result is \<open>path_row\<close> of the parameters, the last
  volatility and the \<open>T\<close> draws path \<open>s\<close> consumes, and of nothing else. Computing
  the paths in any other order, each path keeping its own draws, gives the same matrix.
\<close>

theorem paths_independent:
  assumes "read_coeffs (params fit) = Inr c"
      and "last_item (conditional_volatility fit) = Inr last_vol"
      and "0 \<le> n" and "0 \<le> T"
  shows "\<exists>m g'. monte_carlo_simulation fit n T g = Inr (m, g')
           \<and> (\<forall>s<nat n. \<forall>z. (\<forall>k<nat T. z k = g (s * nat T + k))
                 \<longrightarrow> rows m ! s = path_row c last_vol z (nat T))
           \<and> (\<forall>order g2 zeros.
                 np_zeros n T = Inr zeros \<and> distinct order \<and> set order = {0..<nat n}
                 \<and> (\<forall>j<nat n. \<forall>k<nat T. g2 (j * nat T + k) = g (order ! j * nat T + k))
                 \<longrightarrow> simulated_returns
                       (sim_loop c last_vol (nat T) order \<lparr>gen = g2, simulated_returns = zeros\<rparr>)
                     = m)"
proof -
  let ?m = "\<lparr>nrows = nat n, ncols = nat T, rows = all_rows c last_vol g (nat n) (nat T)\<rparr>"
  let ?z = "\<lparr>nrows = nat n, ncols = nat T, rows = replicate (nat n) (replicate (nat T) (Fin 0))\<rparr>"
  have r: "monte_carlo_simulation fit n T g = Inr (?m, \<lambda>k. g (nat n * nat T + k))"
    by (rule mc_result [OF assms])
  have z: "np_zeros n T = Inr ?z" using assms(3,4) by (simp add: np_zeros_def)
  have own: "rows ?m ! s = path_row c last_vol z (nat T)"
    if "s < nat n" "\<forall>k<nat T. z k = g (s * nat T + k)" for s z
  proof -
    have "path_row c last_vol (\<lambda>k. g (s * nat T + k)) (nat T) = path_row c last_vol z (nat T)"
      by (rule path_row_cong) (use that(2) in simp)
    then show ?thesis using that(1) by (simp add: all_rows_nth)
  qed
  have perm: "simulated_returns
                (sim_loop c last_vol (nat T) order \<lparr>gen = g2, simulated_returns = zeros\<rparr>) = ?m"
    if h: "np_zeros n T = Inr zeros \<and> distinct order \<and> set order = {0..<nat n}
           \<and> (\<forall>j<nat n. \<forall>k<nat T. g2 (j * nat T + k) = g (order ! j * nat T + k))"
    for order g2 zeros
  proof -
    from h z have zz: "zeros = ?z" by simp
    from h have d: "distinct order" and so: "set order = {0..<nat n}"
      and o: "\<forall>j<nat n. \<forall>k<nat T. g2 (j * nat T + k) = g (order ! j * nat T + k)"
      by blast+
    have l: "length (rows ?z) = nat n" by simp
    have ls: "\<forall>r\<in>set (rows ?z). length r = nat T" by simp
    show ?thesis
      unfolding zz sim_loop_permuted [OF d so l ls o] by simp
  qed
  from r own perm show ?thesis by blast
qed

theorem paths_independent_witness:
  "read_coeffs (params scenario_fit) = Inr scenario_coeffs
   \<and> last_item (conditional_volatility scenario_fit) = Inr (Fin 0.015)
   \<and> (0::int) \<le> 2 \<and> (0::int) \<le> 1
   \<and> distinct [1, 0::nat] \<and> set [1, 0::nat] = {0..<nat 2}
   \<and> (\<exists>m g'. monte_carlo_simulation scenario_fit 2 1 real = Inr (m, g')
         \<and> rows m ! 1 = path_row scenario_coeffs (Fin 0.015) (\<lambda>k. 1) 1
         \<and> simulated_returns
             (sim_loop scenario_coeffs (Fin 0.015) 1 [1, 0]
                \<lparr>gen = (\<lambda>k. if k = 0 then 1 else 0),
                   simulated_returns = \<lparr>nrows = 2, ncols = 1, rows = [[Fin 0], [Fin 0]]\<rparr>\<rparr>) = m)"
proof -
  let ?z = "\<lparr>nrows = 2, ncols = 1, rows = [[Fin 0], [Fin 0]]\<rparr>"
  let ?g2 = "\<lambda>k::nat. if k = 0 then 1 else (0::real)"
  have h3: "(0::int) \<le> 2" and h4: "(0::int) \<le> 1" by simp_all
  have d: "distinct [1, 0::nat]" by simp
  have so: "set [1, 0::nat] = {0..<nat 2}" by auto
  have z: "np_zeros 2 1 = Inr ?z" by (simp add: np_zeros_def numeral_2_eq_2)
  have o: "\<forall>j<nat 2. \<forall>k<nat 1. ?g2 (j * nat 1 + k) = real ([1, 0] ! j * nat 1 + k)"
    by (auto simp: less_Suc_eq numeral_2_eq_2)
  have own: "\<forall>k<nat 1. (\<lambda>k. 1) k = real (1 * nat 1 + k)" by simp
  from paths_independent [OF scenario_read_coeffs scenario_last_vol h3 h4, of real]
  obtain m g' where r: "monte_carlo_simulation scenario_fit 2 1 real = Inr (m, g')"
    and a: "\<forall>s<nat 2. \<forall>z. (\<forall>k<nat 1. z k = real (s * nat 1 + k))
                 \<longrightarrow> rows m ! s = path_row scenario_coeffs (Fin 0.015) z (nat 1)"
    and b: "\<forall>order g2 zeros.
                 np_zeros 2 1 = Inr zeros \<and> distinct order \<and> set order = {0..<nat 2}
                 \<and> (\<forall>j<nat 2. \<forall>k<nat 1. g2 (j * nat 1 + k) = real (order ! j * nat 1 + k))
                 \<longrightarrow> simulated_returns
                       (sim_loop scenario_coeffs (Fin 0.015) (nat 1) order
                          \<lparr>gen = g2, simulated_returns = zeros\<rparr>) = m"
    by blast
  have n1: "nat 1 = (1::nat)" by simp
  have a': "rows m ! 1 = path_row scenario_coeffs (Fin 0.015) (\<lambda>k. 1) (nat 1)"
    by (rule a [rule_format]) simp_all
  have b': "simulated_returns
       (sim_loop scenario_coeffs (Fin 0.015) (nat 1) [1, 0] \<lparr>gen = ?g2, simulated_returns = ?z\<rparr>) = m"
    by (rule b [rule_format]) (intro conjI z d so o)
  have "\<exists>m g'. monte_carlo_simulation scenario_fit 2 1 real = Inr (m, g')
         \<and> rows m ! 1 = path_row scenario_coeffs (Fin 0.015) (\<lambda>k. 1) 1
         \<and> simulated_returns
             (sim_loop scenario_coeffs (Fin 0.015) 1 [1, 0] \<lparr>gen = ?g2, simulated_returns = ?z\<rparr>) = m"
    by (rule exI [of _ m], rule exI [of _ g'], intro conjI r a' [unfolded n1] b' [unfolded n1])
  then show ?thesis
    by (intro conjI scenario_read_coeffs scenario_last_vol h3 h4 d so)
qed

section \<open>Sizes of zero\<close>

lemma all_rows_no_paths: "all_rows c last_vol g 0 T = []"
  by (simp add: all_rows_def)

lemma all_rows_no_steps: "all_rows c last_vol g N 0 = replicate N []"
  by (simp add: all_rows_def path_row_def map_replicate_const)

text \<open>
  Claim C9. The function does not check \<open>n_simulations >= 1\<close> or
  \<open>forecast_period >= 1\<close>. With \<open>n_simulations = 0\<close> it returns the zero matrix of
  shape \<open>0\<close> by \<open>T\<close>, with \<open>forecast_period = 0\<close> the zero matrix of shape \<open>N\<close> by
  \<open>0\<close>; no error is raised, and the generator is left as it was, since the loop over
  an empty range runs no iteration.
\<close>

theorem degenerate_sizes_accepted:
  assumes "read_coeffs (params fit) = Inr c"
      and "last_item (conditional_volatility fit) = Inr last_vol"
  shows "(0 \<le> T \<longrightarrow>
            np_zeros 0 T = Inr \<lparr>nrows = 0, ncols = nat T, rows = []\<rparr>
          \<and> monte_carlo_simulation fit 0 T g = Inr (\<lparr>nrows = 0, ncols = nat T, rows = []\<rparr>, g))
       \<and> (0 \<le> n \<longrightarrow>
            np_zeros n 0 = Inr \<lparr>nrows = nat n, ncols = 0, rows = replicate (nat n) []\<rparr>
          \<and> monte_carlo_simulation fit n 0 g
              = Inr (\<lparr>nrows = nat n, ncols = 0, rows = replicate (nat n) []\<rparr>, g))
       \<and> sim_loop c last_vol (nat T) [0..<nat 0] st = st
       \<and> time_loop c sim [0..<nat 0] s = s"
proof (intro conjI impI)
  assume T: "0 \<le> T"
  show "np_zeros 0 T = Inr \<lparr>nrows = 0, ncols = nat T, rows = []\<rparr>"
    using T by (simp add: np_zeros_def)
  show "monte_carlo_simulation fit 0 T g = Inr (\<lparr>nrows = 0, ncols = nat T, rows = []\<rparr>, g)"
    using mc_result [OF assms _ T, of 0 g] by (simp add: all_rows_no_paths)
next
  assume n: "0 \<le> n"
  show "np_zeros n 0 = Inr \<lparr>nrows = nat n, ncols = 0, rows = replicate (nat n) []\<rparr>"
    using n by (simp add: np_zeros_def)
  show "monte_carlo_simulation fit n 0 g
        = Inr (\<lparr>nrows = nat n, ncols = 0, rows = replicate (nat n) []\<rparr>, g)"
    using mc_result [OF assms n, of 0 g] by (simp add: all_rows_no_steps)
next
  show "sim_loop c last_vol (nat T) [0..<nat 0] st = st" by simp
  show "time_loop c sim [0..<nat 0] s = s" by simp
qed

theorem degenerate_sizes_accepted_witness:
  "monte_carlo_simulation scenario_fit 0 21 real = Inr (\<lparr>nrows = 0, ncols = 21, rows = []\<rparr>, real)
   \<and> monte_carlo_simulation scenario_fit 10000 0 real
       = Inr (\<lparr>nrows = 10000, ncols = 0, rows = replicate 10000 []\<rparr>, real)"
proof -
  note w = degenerate_sizes_accepted [OF scenario_read_coeffs scenario_last_vol, of 21 real 10000]
  have "(0::int) \<le> 21" and "(0::int) \<le> 10000" by simp_all
  with w show ?thesis by simp
qed

section \<open>find_best_model\<close>

text \<open>
  The fit of a candidate order, \<open>arch_model(...).fit(...)\<close>, is a call into the
  fitting library and a parameter here: \<open>fit_aic (p, q)\<close> is the \<open>aic\<close> of the
  fitted result, or \<open>None\<close> when anything inside the \<open>try\<close> block raises (the bare
  \<open>except\<close> then continues with the next candidate).
\<close>

type_synonym order = "nat \<times> nat"

text \<open>The two variables the loops update.\<close>

record search =
  best_aic :: npfloat
  best_order :: "order option"

text \<open>The body of the inner loop, lines 30 to 37.\<close>

definition try_order :: "(order \<Rightarrow> npfloat option) \<Rightarrow> nat \<Rightarrow> nat \<Rightarrow> search \<Rightarrow> search" where
  "try_order fit_aic p q s =
     (case fit_aic (p, q) of
        None \<Rightarrow> s
      | Some aic \<Rightarrow>
          if flt aic (best_aic s) then \<lparr>best_aic = aic, best_order = Some (p, q)\<rparr> else s)"

text \<open>\<open>for q in range(1, 3)\<close> and \<open>for p in range(1, 3)\<close>.\<close>

primrec q_loop :: "(order \<Rightarrow> npfloat option) \<Rightarrow> nat \<Rightarrow> nat list \<Rightarrow> search \<Rightarrow> search" where
  "q_loop fit_aic p [] s = s"
| "q_loop fit_aic p (q # qs) s = q_loop fit_aic p qs (try_order fit_aic p q s)"

primrec p_loop :: "(order \<Rightarrow> npfloat option) \<Rightarrow> nat list \<Rightarrow> search \<Rightarrow> search" where
  "p_loop fit_aic [] s = s"
| "p_loop fit_aic (p # ps) s = p_loop fit_aic ps (q_loop fit_aic p [1..<3] s)"

definition find_best_model :: "(order \<Rightarrow> npfloat option) \<Rightarrow> order option" where
  "find_best_model fit_aic =
     best_order (p_loop fit_aic [1..<3] \<lparr>best_aic = PInf, best_order = None\<rparr>)"

text \<open>Lines 89 and 90 of \<open>main\<close>: \<open>p, q = best_order\<close> cannot unpack \<open>None\<close>.\<close>

definition unpack_order :: "order option \<Rightarrow> py_error + order" where
  "unpack_order best = (case best of None \<Rightarrow> Inl TypeError | Some (p, q) \<Rightarrow> Inr (p, q))"

definition main_select_order :: "(order \<Rightarrow> npfloat option) \<Rightarrow> py_error + order" where
  "main_select_order fit_aic = unpack_order (find_best_model fit_aic)"

text \<open>The candidates in the order the nested loops visit them.\<close>

definition candidates :: "order list" where
  "candidates = [(1, 1), (1, 2), (2, 1), (2, 2)]"

primrec try_all :: "(order \<Rightarrow> npfloat option) \<Rightarrow> order list \<Rightarrow> search \<Rightarrow> search" where
  "try_all fit_aic [] s = s"
| "try_all fit_aic (c # cs) s = try_all fit_aic cs (try_order fit_aic (fst c) (snd c) s)"

lemma upt_Suc_0_3: "[Suc 0..<3] = [Suc 0, 2]"
  by (simp add: upt_rec)

lemma p_loop_candidates: "p_loop fit_aic [1..<3] s = try_all fit_aic candidates s"
  by (simp add: upt_Suc_0_3 candidates_def)

lemma try_all_snoc:
  "try_all fit_aic (cs @ [c]) s = try_order fit_aic (fst c) (snd c) (try_all fit_aic cs s)"
  by (induction cs arbitrary: s) simp_all

text \<open>
  The state of the search after the candidates \<open>cs\<close>: nothing selected and every fit
  raised, or the first candidate of the smallest AIC.
\<close>

definition selected :: "(order \<Rightarrow> npfloat option) \<Rightarrow> order list \<Rightarrow> search \<Rightarrow> bool" where
  "selected fit_aic cs s \<longleftrightarrow>
     (s = \<lparr>best_aic = PInf, best_order = None\<rparr> \<and> (\<forall>c\<in>set cs. fit_aic c = None))
   \<or> (\<exists>i a. i < length cs \<and> fit_aic (cs ! i) = Some (Fin a)
          \<and> s = \<lparr>best_aic = Fin a, best_order = Some (cs ! i)\<rparr>
          \<and> (\<forall>j<length cs. \<forall>b. fit_aic (cs ! j) = Some (Fin b) \<longrightarrow> a \<le> b \<and> (j < i \<longrightarrow> a < b)))"

lemma try_all_selected:
  assumes "\<forall>c\<in>set cs. \<forall>x. fit_aic c = Some x \<longrightarrow> is_finite x"
  shows "selected fit_aic cs (try_all fit_aic cs \<lparr>best_aic = PInf, best_order = None\<rparr>)"
  using assms
proof (induction cs rule: rev_induct)
  case Nil
  show ?case by (simp add: selected_def)
next
  case (snoc c cs)
  let ?ini = "\<lparr>best_aic = PInf, best_order = None\<rparr>"
  let ?cur = "try_all fit_aic cs ?ini"
  from snoc.prems have fin_cs: "\<forall>c\<in>set cs. \<forall>x. fit_aic c = Some x \<longrightarrow> is_finite x"
    and fin_c: "\<forall>x. fit_aic c = Some x \<longrightarrow> is_finite x" by simp_all
  note ih = snoc.IH [OF fin_cs]
  have step: "try_all fit_aic (cs @ [c]) ?ini = try_order fit_aic (fst c) (snd c) ?cur"
    by (rule try_all_snoc)
  show ?case
  proof (cases "fit_aic c")
    case None
    then have same: "try_all fit_aic (cs @ [c]) ?ini = ?cur"
      unfolding step by (simp add: try_order_def)
    from ih show ?thesis
      unfolding same selected_def
    proof (elim disjE conjE exE)
      assume "?cur = ?ini" "\<forall>c\<in>set cs. fit_aic c = None"
      with None show "(?cur = ?ini \<and> (\<forall>c\<in>set (cs @ [c]). fit_aic c = None))
        \<or> (\<exists>i a. i < length (cs @ [c]) \<and> fit_aic ((cs @ [c]) ! i) = Some (Fin a)
          \<and> ?cur = \<lparr>best_aic = Fin a, best_order = Some ((cs @ [c]) ! i)\<rparr>
          \<and> (\<forall>j<length (cs @ [c]). \<forall>b. fit_aic ((cs @ [c]) ! j) = Some (Fin b)
                \<longrightarrow> a \<le> b \<and> (j < i \<longrightarrow> a < b)))"
        by simp
    next
      fix i a
      assume i: "i < length cs" and fi: "fit_aic (cs ! i) = Some (Fin a)"
        and s: "?cur = \<lparr>best_aic = Fin a, best_order = Some (cs ! i)\<rparr>"
        and m: "\<forall>j<length cs. \<forall>b. fit_aic (cs ! j) = Some (Fin b) \<longrightarrow> a \<le> b \<and> (j < i \<longrightarrow> a < b)"
      have m': "\<forall>j<length (cs @ [c]). \<forall>b. fit_aic ((cs @ [c]) ! j) = Some (Fin b)
                \<longrightarrow> a \<le> b \<and> (j < i \<longrightarrow> a < b)"
      proof (intro allI impI)
        fix j b assume j: "j < length (cs @ [c])" and fj: "fit_aic ((cs @ [c]) ! j) = Some (Fin b)"
        show "a \<le> b \<and> (j < i \<longrightarrow> a < b)"
        proof (cases "j < length cs")
          case True
          with fj have "fit_aic (cs ! j) = Some (Fin b)" by (simp add: nth_append)
          with m True show ?thesis by blast
        next
          case False
          with j have "j = length cs" by simp
          with fj None show ?thesis by simp
        qed
      qed
      have "i < length (cs @ [c])" using i by simp
      moreover have "fit_aic ((cs @ [c]) ! i) = Some (Fin a)" using i fi by (simp add: nth_append)
      moreover have "?cur = \<lparr>best_aic = Fin a, best_order = Some ((cs @ [c]) ! i)\<rparr>"
        using i s by (simp add: nth_append)
      ultimately show "(?cur = ?ini \<and> (\<forall>c\<in>set (cs @ [c]). fit_aic c = None))
        \<or> (\<exists>i a. i < length (cs @ [c]) \<and> fit_aic ((cs @ [c]) ! i) = Some (Fin a)
          \<and> ?cur = \<lparr>best_aic = Fin a, best_order = Some ((cs @ [c]) ! i)\<rparr>
          \<and> (\<forall>j<length (cs @ [c]). \<forall>b. fit_aic ((cs @ [c]) ! j) = Some (Fin b)
                \<longrightarrow> a \<le> b \<and> (j < i \<longrightarrow> a < b)))"
        using m' by blast
    qed
  next
    case (Some x)
    with fin_c obtain b where x: "x = Fin b" by (cases x) auto
    have fc: "fit_aic c = Some (Fin b)" using Some x by simp
    have fc': "fit_aic (fst c, snd c) = Some (Fin b)" using fc by simp
    have last: "(cs @ [c]) ! length cs = c" by simp
    from ih show ?thesis
      unfolding selected_def
    proof (elim disjE conjE exE)
      assume s: "?cur = ?ini" and none: "\<forall>c\<in>set cs. fit_aic c = None"
      have new: "try_all fit_aic (cs @ [c]) ?ini = \<lparr>best_aic = Fin b, best_order = Some c\<rparr>"
        unfolding step s by (simp add: try_order_def fc fc')
      have m': "\<forall>j<length (cs @ [c]). \<forall>b'. fit_aic ((cs @ [c]) ! j) = Some (Fin b')
                \<longrightarrow> b \<le> b' \<and> (j < length cs \<longrightarrow> b < b')"
      proof (intro allI impI)
        fix j b' assume j: "j < length (cs @ [c])" and fj: "fit_aic ((cs @ [c]) ! j) = Some (Fin b')"
        show "b \<le> b' \<and> (j < length cs \<longrightarrow> b < b')"
        proof (cases "j < length cs")
          case True
          then have "cs ! j \<in> set cs" by simp
          with none have "fit_aic (cs ! j) = None" by blast
          with fj True show ?thesis by (simp add: nth_append)
        next
          case False
          with j have "j = length cs" by simp
          with fj fc show ?thesis by simp
        qed
      qed
      have "\<exists>i a. i < length (cs @ [c]) \<and> fit_aic ((cs @ [c]) ! i) = Some (Fin a)
          \<and> try_all fit_aic (cs @ [c]) ?ini = \<lparr>best_aic = Fin a, best_order = Some ((cs @ [c]) ! i)\<rparr>
          \<and> (\<forall>j<length (cs @ [c]). \<forall>b. fit_aic ((cs @ [c]) ! j) = Some (Fin b)
                \<longrightarrow> a \<le> b \<and> (j < i \<longrightarrow> a < b))"
        apply (rule exI [of _ "length cs"], rule exI [of _ b])
        unfolding last using fc new m' by simp
      then show "(try_all fit_aic (cs @ [c]) ?ini = ?ini \<and> (\<forall>c\<in>set (cs @ [c]). fit_aic c = None))
        \<or> (\<exists>i a. i < length (cs @ [c]) \<and> fit_aic ((cs @ [c]) ! i) = Some (Fin a)
          \<and> try_all fit_aic (cs @ [c]) ?ini = \<lparr>best_aic = Fin a, best_order = Some ((cs @ [c]) ! i)\<rparr>
          \<and> (\<forall>j<length (cs @ [c]). \<forall>b. fit_aic ((cs @ [c]) ! j) = Some (Fin b)
                \<longrightarrow> a \<le> b \<and> (j < i \<longrightarrow> a < b)))"
        by (rule disjI2)
    next
      fix i a
      assume i: "i < length cs" and fi: "fit_aic (cs ! i) = Some (Fin a)"
        and s: "?cur = \<lparr>best_aic = Fin a, best_order = Some (cs ! i)\<rparr>"
        and m: "\<forall>j<length cs. \<forall>b. fit_aic (cs ! j) = Some (Fin b) \<longrightarrow> a \<le> b \<and> (j < i \<longrightarrow> a < b)"
      show "(try_all fit_aic (cs @ [c]) ?ini = ?ini \<and> (\<forall>c\<in>set (cs @ [c]). fit_aic c = None))
        \<or> (\<exists>i a. i < length (cs @ [c]) \<and> fit_aic ((cs @ [c]) ! i) = Some (Fin a)
          \<and> try_all fit_aic (cs @ [c]) ?ini = \<lparr>best_aic = Fin a, best_order = Some ((cs @ [c]) ! i)\<rparr>
          \<and> (\<forall>j<length (cs @ [c]). \<forall>b. fit_aic ((cs @ [c]) ! j) = Some (Fin b)
                \<longrightarrow> a \<le> b \<and> (j < i \<longrightarrow> a < b)))"
      proof (cases "b < a")
        case True
        have new: "try_all fit_aic (cs @ [c]) ?ini = \<lparr>best_aic = Fin b, best_order = Some c\<rparr>"
          unfolding step s using True by (simp add: try_order_def fc fc')
        have m': "\<forall>j<length (cs @ [c]). \<forall>b'. fit_aic ((cs @ [c]) ! j) = Some (Fin b')
                \<longrightarrow> b \<le> b' \<and> (j < length cs \<longrightarrow> b < b')"
        proof (intro allI impI)
          fix j b' assume j: "j < length (cs @ [c])" and fj: "fit_aic ((cs @ [c]) ! j) = Some (Fin b')"
          show "b \<le> b' \<and> (j < length cs \<longrightarrow> b < b')"
          proof (cases "j < length cs")
            case jl: True
            with fj have "fit_aic (cs ! j) = Some (Fin b')" by (simp add: nth_append)
            with m jl have "a \<le> b'" by blast
            with True jl show ?thesis by simp
          next
            case False
            with j have "j = length cs" by simp
            with fj fc show ?thesis by simp
          qed
        qed
        have "\<exists>i a. i < length (cs @ [c]) \<and> fit_aic ((cs @ [c]) ! i) = Some (Fin a)
          \<and> try_all fit_aic (cs @ [c]) ?ini = \<lparr>best_aic = Fin a, best_order = Some ((cs @ [c]) ! i)\<rparr>
          \<and> (\<forall>j<length (cs @ [c]). \<forall>b. fit_aic ((cs @ [c]) ! j) = Some (Fin b)
                \<longrightarrow> a \<le> b \<and> (j < i \<longrightarrow> a < b))"
          apply (rule exI [of _ "length cs"], rule exI [of _ b])
          unfolding last using fc new m' by simp
        then show ?thesis by (rule disjI2)
      next
        case False
        have same: "try_all fit_aic (cs @ [c]) ?ini = \<lparr>best_aic = Fin a, best_order = Some (cs ! i)\<rparr>"
          unfolding step s using False by (simp add: try_order_def fc fc')
        have m': "\<forall>j<length (cs @ [c]). \<forall>b'. fit_aic ((cs @ [c]) ! j) = Some (Fin b')
                \<longrightarrow> a \<le> b' \<and> (j < i \<longrightarrow> a < b')"
        proof (intro allI impI)
          fix j b' assume j: "j < length (cs @ [c])" and fj: "fit_aic ((cs @ [c]) ! j) = Some (Fin b')"
          show "a \<le> b' \<and> (j < i \<longrightarrow> a < b')"
          proof (cases "j < length cs")
            case jl: True
            with fj have "fit_aic (cs ! j) = Some (Fin b')" by (simp add: nth_append)
            with m jl show ?thesis by blast
          next
            case jl: False
            with j have "j = length cs" by simp
            with fj fc False i show ?thesis by simp
          qed
        qed
        have "i < length (cs @ [c])" using i by simp
        moreover have "fit_aic ((cs @ [c]) ! i) = Some (Fin a)" using i fi by (simp add: nth_append)
        moreover have "try_all fit_aic (cs @ [c]) ?ini
                       = \<lparr>best_aic = Fin a, best_order = Some ((cs @ [c]) ! i)\<rparr>"
          using i same by (simp add: nth_append)
        ultimately show ?thesis using m' by blast
      qed
    qed
  qed
qed

lemma find_best_model_selected:
  assumes "\<forall>c\<in>set candidates. \<forall>x. fit_aic c = Some x \<longrightarrow> is_finite x"
  shows "case find_best_model fit_aic of
           None \<Rightarrow> (\<forall>c\<in>set candidates. fit_aic c = None)
         | Some c \<Rightarrow>
             (\<exists>i a. i < length candidates \<and> candidates ! i = c \<and> fit_aic c = Some (Fin a)
                \<and> (\<forall>j<length candidates. \<forall>b. fit_aic (candidates ! j) = Some (Fin b)
                      \<longrightarrow> a \<le> b \<and> (j < i \<longrightarrow> a < b)))"
proof -
  let ?ini = "\<lparr>best_aic = PInf, best_order = None\<rparr>"
  have f: "find_best_model fit_aic = best_order (try_all fit_aic candidates ?ini)"
    by (simp only: find_best_model_def p_loop_candidates)
  from try_all_selected [OF assms]
  show ?thesis
    unfolding selected_def f
  proof (elim disjE conjE exE)
    assume s: "try_all fit_aic candidates ?ini = ?ini"
      and none: "\<forall>c\<in>set candidates. fit_aic c = None"
    show "case best_order (try_all fit_aic candidates ?ini) of
           None \<Rightarrow> (\<forall>c\<in>set candidates. fit_aic c = None)
         | Some c \<Rightarrow>
             (\<exists>i a. i < length candidates \<and> candidates ! i = c \<and> fit_aic c = Some (Fin a)
                \<and> (\<forall>j<length candidates. \<forall>b. fit_aic (candidates ! j) = Some (Fin b)
                      \<longrightarrow> a \<le> b \<and> (j < i \<longrightarrow> a < b)))"
      unfolding s using none by simp
  next
    fix i a
    assume i: "i < length candidates" and fi: "fit_aic (candidates ! i) = Some (Fin a)"
      and s: "try_all fit_aic candidates ?ini = \<lparr>best_aic = Fin a, best_order = Some (candidates ! i)\<rparr>"
      and m: "\<forall>j<length candidates. \<forall>b. fit_aic (candidates ! j) = Some (Fin b)
                \<longrightarrow> a \<le> b \<and> (j < i \<longrightarrow> a < b)"
    have "\<exists>i' a. i' < length candidates \<and> candidates ! i' = candidates ! i
                \<and> fit_aic (candidates ! i) = Some (Fin a)
                \<and> (\<forall>j<length candidates. \<forall>b. fit_aic (candidates ! j) = Some (Fin b)
                      \<longrightarrow> a \<le> b \<and> (j < i' \<longrightarrow> a < b))"
      using i fi m by blast
    then show "case best_order (try_all fit_aic candidates ?ini) of
           None \<Rightarrow> (\<forall>c\<in>set candidates. fit_aic c = None)
         | Some c \<Rightarrow>
             (\<exists>i a. i < length candidates \<and> candidates ! i = c \<and> fit_aic c = Some (Fin a)
                \<and> (\<forall>j<length candidates. \<forall>b. fit_aic (candidates ! j) = Some (Fin b)
                      \<longrightarrow> a \<le> b \<and> (j < i \<longrightarrow> a < b)))"
      unfolding s by simp
  qed
qed

lemma find_best_model_all_raise:
  assumes "\<forall>c\<in>set candidates. fit_aic c = None"
  shows "find_best_model fit_aic = None"
proof -
  have "try_all fit_aic candidates s = s" for s
    using assms by (simp add: candidates_def try_order_def)
  then show ?thesis
    by (simp only: find_best_model_def p_loop_candidates) simp
qed

text \<open>
  Claim C10. \<open>find_best_model\<close> tries (1,1), (1,2), (2,1), (2,2) in this order and
  skips a candidate whose fit raises. When the AICs of the fits that succeed are finite
  numbers, it returns the first candidate in this order whose AIC is the smallest among
  them: no successful fit has a smaller AIC and every earlier one has a strictly greater
  AIC. When every fit raises it returns \<open>None\<close>, and the unpacking in \<open>main\<close> fails
  with a TypeError.
\<close>

theorem find_best_model_selection:
  "(\<forall>s. p_loop fit_aic [1..<3] s
          = try_order fit_aic 2 2 (try_order fit_aic 2 1
              (try_order fit_aic 1 2 (try_order fit_aic 1 1 s))))
   \<and> (\<forall>p q s. fit_aic (p, q) = None \<longrightarrow> try_order fit_aic p q s = s)
   \<and> ((\<forall>c\<in>set candidates. \<forall>x. fit_aic c = Some x \<longrightarrow> is_finite x) \<longrightarrow>
        (case find_best_model fit_aic of
           None \<Rightarrow> (\<forall>c\<in>set candidates. fit_aic c = None)
         | Some c \<Rightarrow>
             (\<exists>i a. i < length candidates \<and> candidates ! i = c \<and> fit_aic c = Some (Fin a)
                \<and> (\<forall>j<length candidates. \<forall>b. fit_aic (candidates ! j) = Some (Fin b)
                      \<longrightarrow> a \<le> b \<and> (j < i \<longrightarrow> a < b)))))
   \<and> ((\<forall>c\<in>set candidates. fit_aic c = None) \<longrightarrow>
        find_best_model fit_aic = None \<and> main_select_order fit_aic = Inl TypeError)"
proof (intro conjI allI impI)
  fix s
  show "p_loop fit_aic [1..<3] s
          = try_order fit_aic 2 2 (try_order fit_aic 2 1
              (try_order fit_aic 1 2 (try_order fit_aic 1 1 s)))"
    by (simp add: upt_Suc_0_3)
next
  fix p q s assume "fit_aic (p, q) = None"
  then show "try_order fit_aic p q s = s" by (simp add: try_order_def)
next
  assume "\<forall>c\<in>set candidates. \<forall>x. fit_aic c = Some x \<longrightarrow> is_finite x"
  then show "case find_best_model fit_aic of
           None \<Rightarrow> (\<forall>c\<in>set candidates. fit_aic c = None)
         | Some c \<Rightarrow>
             (\<exists>i a. i < length candidates \<and> candidates ! i = c \<and> fit_aic c = Some (Fin a)
                \<and> (\<forall>j<length candidates. \<forall>b. fit_aic (candidates ! j) = Some (Fin b)
                      \<longrightarrow> a \<le> b \<and> (j < i \<longrightarrow> a < b)))"
    by (rule find_best_model_selected)
next
  assume a: "\<forall>c\<in>set candidates. fit_aic c = None"
  then show n: "find_best_model fit_aic = None" by (rule find_best_model_all_raise)
  show "main_select_order fit_aic = Inl TypeError"
    by (simp add: main_select_order_def unpack_order_def n)
qed

text \<open>An example: (2,1) raises, and (1,2) and (2,2) tie for the smallest AIC.\<close>

definition example_aics :: "order \<Rightarrow> npfloat option" where
  "example_aics = [(1, 1) \<mapsto> Fin 10, (1, 2) \<mapsto> Fin 7, (2, 2) \<mapsto> Fin 7]"

lemma example_aics_best: "find_best_model example_aics = Some (1, 2)"
  by (simp add: find_best_model_def upt_Suc_0_3 try_order_def example_aics_def)

theorem find_best_model_selection_witness:
  "find_best_model example_aics = Some (1, 2)
   \<and> (\<exists>i a. i < length candidates \<and> candidates ! i = (1, 2) \<and> example_aics (1, 2) = Some (Fin a)
          \<and> (\<forall>j<length candidates. \<forall>b. example_aics (candidates ! j) = Some (Fin b)
                \<longrightarrow> a \<le> b \<and> (j < i \<longrightarrow> a < b)))
   \<and> find_best_model (\<lambda>c. None) = None
   \<and> main_select_order (\<lambda>c. None) = Inl TypeError"
proof -
  have fin: "\<forall>c\<in>set candidates. \<forall>x. example_aics c = Some x \<longrightarrow> is_finite x"
    by (auto simp: candidates_def example_aics_def)
  have none: "\<forall>c\<in>set candidates. (\<lambda>c. None :: npfloat option) c = None" by simp
  note t1 = find_best_model_selection [of example_aics, THEN conjunct2, THEN conjunct2, THEN conjunct1,
              THEN mp, OF fin]
  note t2 = find_best_model_selection [of "\<lambda>c. None", THEN conjunct2, THEN conjunct2, THEN conjunct2,
              THEN mp, OF none]
  from t1 have "\<exists>i a. i < length candidates \<and> candidates ! i = (1, 2) \<and> example_aics (1, 2) = Some (Fin a)
          \<and> (\<forall>j<length candidates. \<forall>b. example_aics (candidates ! j) = Some (Fin b)
                \<longrightarrow> a \<le> b \<and> (j < i \<longrightarrow> a < b))"
    unfolding example_aics_best by simp
  with t2 example_aics_best show ?thesis by blast
qed

section \<open>The hard-coded order of the simulation\<close>

text \<open>
  Modelled from the spec: the names under which a fit of order \<open>(p, q)\<close> delivers its
  parameters. The fitting library is not part of the repository; the specification
  has the named coefficients \<open>mu, omega, alpha[1..p], beta[1..q]\<close>. The index is
  written in decimal.
\<close>

fun decimal :: "nat \<Rightarrow> string" where
  "decimal n = (if n < 10 then [''0123456789'' ! n]
                else decimal (n div 10) @ [''0123456789'' ! (n mod 10)])"

declare decimal.simps [simp del]

definition indexed_name :: "string \<Rightarrow> nat \<Rightarrow> string" where
  "indexed_name base i = base @ ''['' @ decimal i @ '']''"

definition egarch_param_names :: "nat \<Rightarrow> nat \<Rightarrow> string list" where
  "egarch_param_names p q =
     [''mu'', ''omega''] @ map (indexed_name ''alpha'') [1..<Suc p]
       @ map (indexed_name ''beta'') [1..<Suc q]"

lemma names_1_1: "egarch_param_names 1 1 = [''mu'', ''omega'', ''alpha[1]'', ''beta[1]'']"
  by (simp add: egarch_param_names_def indexed_name_def decimal.simps upt_rec)

lemma names_1_2: "egarch_param_names 1 2 = [''mu'', ''omega'', ''alpha[1]'', ''beta[1]'', ''beta[2]'']"
  by (simp add: egarch_param_names_def indexed_name_def decimal.simps upt_rec)

lemma names_2_1: "egarch_param_names 2 1 = [''mu'', ''omega'', ''alpha[1]'', ''alpha[2]'', ''beta[1]'']"
  by (simp add: egarch_param_names_def indexed_name_def decimal.simps upt_rec)

lemma read_coeffs_missing_alpha2:
  assumes "ps ''mu'' \<noteq> None" "ps ''omega'' \<noteq> None" "ps ''alpha[1]'' \<noteq> None" "ps ''alpha[2]'' = None"
  shows "read_coeffs ps = Inl (KeyError ''alpha[2]'')"
proof -
  from assms obtain m w a1 where "ps ''mu'' = Some m" "ps ''omega'' = Some w" "ps ''alpha[1]'' = Some a1"
    by auto
  with assms(4) show ?thesis by (simp add: read_coeffs_def getitem_def)
qed

lemma read_coeffs_missing_beta2:
  assumes "ps ''mu'' \<noteq> None" "ps ''omega'' \<noteq> None" "ps ''alpha[1]'' \<noteq> None"
    "ps ''alpha[2]'' \<noteq> None" "ps ''beta[1]'' \<noteq> None" "ps ''beta[2]'' = None"
  shows "read_coeffs ps = Inl (KeyError ''beta[2]'')"
proof -
  from assms obtain m w a1 a2 b1 where "ps ''mu'' = Some m" "ps ''omega'' = Some w"
    "ps ''alpha[1]'' = Some a1" "ps ''alpha[2]'' = Some a2" "ps ''beta[1]'' = Some b1"
    by auto
  with assms(6) show ?thesis by (simp add: read_coeffs_def getitem_def)
qed

lemma read_coeffs_key_error:
  assumes "ps ''alpha[1]'' = None \<or> ps ''alpha[2]'' = None \<or> ps ''beta[1]'' = None \<or> ps ''beta[2]'' = None"
  shows "\<exists>k. read_coeffs ps = Inl (KeyError k)"
  using assms unfolding read_coeffs_def getitem_def
  by (cases "ps ''mu''"; cases "ps ''omega''"; cases "ps ''alpha[1]''"; cases "ps ''alpha[2]''";
      cases "ps ''beta[1]''"; cases "ps ''beta[2]''"; simp)

lemma read_coeffs_success:
  "(\<exists>c. read_coeffs ps = Inr c)
   \<longleftrightarrow> ps ''mu'' \<noteq> None \<and> ps ''omega'' \<noteq> None \<and> ps ''alpha[1]'' \<noteq> None
       \<and> ps ''alpha[2]'' \<noteq> None \<and> ps ''beta[1]'' \<noteq> None \<and> ps ''beta[2]'' \<noteq> None"
  unfolding read_coeffs_def getitem_def
  by (cases "ps ''mu''"; cases "ps ''omega''"; cases "ps ''alpha[1]''"; cases "ps ''alpha[2]''";
      cases "ps ''beta[1]''"; cases "ps ''beta[2]''"; simp)

lemma mc_read_error:
  "read_coeffs (params fit) = Inl e \<Longrightarrow> monte_carlo_simulation fit n T g = Inl e"
  by (simp add: monte_carlo_simulation_def)

lemma mc_fails_for_order:
  assumes c: "(p, q) \<in> set candidates" and lt: "p < 2 \<or> q < 2"
      and d: "dom (params fit) = set (egarch_param_names p q)"
  shows "monte_carlo_simulation fit n T g
         = Inl (KeyError (if p < 2 then ''alpha[2]'' else ''beta[2]''))"
proof -
  from c lt consider "p = 1 \<and> q = 1" | "p = 1 \<and> q = 2" | "p = 2 \<and> q = 1"
    by (auto simp: candidates_def)
  then show ?thesis
  proof cases
    case 1
    with d have dd: "dom (params fit) = set [''mu'', ''omega'', ''alpha[1]'', ''beta[1]'']"
      by (simp only: names_1_1)
    have "''mu'' \<in> dom (params fit)" "''omega'' \<in> dom (params fit)"
      "''alpha[1]'' \<in> dom (params fit)" "''alpha[2]'' \<notin> dom (params fit)"
      unfolding dd by simp_all
    then have "read_coeffs (params fit) = Inl (KeyError ''alpha[2]'')"
      by (intro read_coeffs_missing_alpha2) (simp_all add: domIff)
    then show ?thesis using 1 by (simp add: mc_read_error)
  next
    case 2
    with d have dd: "dom (params fit) = set [''mu'', ''omega'', ''alpha[1]'', ''beta[1]'', ''beta[2]'']"
      by (simp only: names_1_2)
    have "''mu'' \<in> dom (params fit)" "''omega'' \<in> dom (params fit)"
      "''alpha[1]'' \<in> dom (params fit)" "''alpha[2]'' \<notin> dom (params fit)"
      unfolding dd by simp_all
    then have "read_coeffs (params fit) = Inl (KeyError ''alpha[2]'')"
      by (intro read_coeffs_missing_alpha2) (simp_all add: domIff)
    then show ?thesis using 2 by (simp add: mc_read_error)
  next
    case 3
    with d have dd: "dom (params fit) = set [''mu'', ''omega'', ''alpha[1]'', ''alpha[2]'', ''beta[1]'']"
      by (simp only: names_2_1)
    have "''mu'' \<in> dom (params fit)" "''omega'' \<in> dom (params fit)"
      "''alpha[1]'' \<in> dom (params fit)" "''alpha[2]'' \<in> dom (params fit)"
      "''beta[1]'' \<in> dom (params fit)" "''beta[2]'' \<notin> dom (params fit)"
      unfolding dd by simp_all
    then have "read_coeffs (params fit) = Inl (KeyError ''beta[2]'')"
      by (intro read_coeffs_missing_beta2) (simp_all add: domIff)
    then show ?thesis using 3 by (simp add: mc_read_error)
  qed
qed

lemma find_best_model_single:
  assumes "c \<in> set candidates"
  shows "find_best_model (\<lambda>x. if x = c then Some (Fin 0) else None) = Some c"
proof -
  from assms consider "c = (1, 1)" | "c = (1, 2)" | "c = (2, 1)" | "c = (2, 2)"
    by (auto simp: candidates_def)
  then show ?thesis
    by cases (simp_all add: find_best_model_def upt_Suc_0_3 try_order_def)
qed

text \<open>
  Claim C8. \<open>monte_carlo_simulation\<close> reads the keys \<open>mu\<close>, \<open>omega\<close>,
  \<open>alpha[1]\<close>, \<open>alpha[2]\<close>, \<open>beta[1]\<close>, \<open>beta[2]\<close> and succeeds in reading them
  exactly when all six are present. A fitted model that lacks one of the four
  \<open>alpha\<close> and \<open>beta\<close> keys makes it fail with a KeyError, and nothing is returned.
  That is so for the parameters of every order of the grid with \<open>p < 2\<close> or
  \<open>q < 2\<close>, where the key missed first is \<open>alpha[2]\<close>, or \<open>beta[2]\<close> for the order
  (2,1); and \<open>find_best_model\<close> can return every order of its grid.
\<close>

theorem hard_coded_order_key_error:
  "((\<exists>c. read_coeffs (params fit) = Inr c)
      \<longleftrightarrow> set [''mu'', ''omega'', ''alpha[1]'', ''alpha[2]'', ''beta[1]'', ''beta[2]'']
            \<subseteq> dom (params fit))
   \<and> (''alpha[1]'' \<notin> dom (params fit) \<or> ''alpha[2]'' \<notin> dom (params fit)
        \<or> ''beta[1]'' \<notin> dom (params fit) \<or> ''beta[2]'' \<notin> dom (params fit)
      \<longrightarrow> (\<exists>k. monte_carlo_simulation fit n T g = Inl (KeyError k)))
   \<and> (\<forall>p q. (p, q) \<in> set candidates \<and> (p < 2 \<or> q < 2)
             \<and> dom (params fit) = set (egarch_param_names p q)
        \<longrightarrow> monte_carlo_simulation fit n T g
            = Inl (KeyError (if p < 2 then ''alpha[2]'' else ''beta[2]'')))
   \<and> (\<forall>c\<in>set candidates. \<exists>fit_aic. find_best_model fit_aic = Some c)"
proof (intro conjI allI impI ballI)
  show "(\<exists>c. read_coeffs (params fit) = Inr c)
      \<longleftrightarrow> set [''mu'', ''omega'', ''alpha[1]'', ''alpha[2]'', ''beta[1]'', ''beta[2]'']
            \<subseteq> dom (params fit)"
    unfolding read_coeffs_success by (simp add: domIff)
next
  assume "''alpha[1]'' \<notin> dom (params fit) \<or> ''alpha[2]'' \<notin> dom (params fit)
        \<or> ''beta[1]'' \<notin> dom (params fit) \<or> ''beta[2]'' \<notin> dom (params fit)"
  then have "params fit ''alpha[1]'' = None \<or> params fit ''alpha[2]'' = None
      \<or> params fit ''beta[1]'' = None \<or> params fit ''beta[2]'' = None"
    by (simp add: domIff)
  then obtain k where "read_coeffs (params fit) = Inl (KeyError k)"
    using read_coeffs_key_error by blast
  then have "monte_carlo_simulation fit n T g = Inl (KeyError k)" by (rule mc_read_error)
  then show "\<exists>k. monte_carlo_simulation fit n T g = Inl (KeyError k)" ..
next
  fix p q
  assume "(p, q) \<in> set candidates \<and> (p < 2 \<or> q < 2)
             \<and> dom (params fit) = set (egarch_param_names p q)"
  then show "monte_carlo_simulation fit n T g
            = Inl (KeyError (if p < 2 then ''alpha[2]'' else ''beta[2]''))"
    using mc_fails_for_order by blast
next
  fix c assume "c \<in> set candidates"
  then have "find_best_model (\<lambda>x. if x = c then Some (Fin 0) else None) = Some c"
    by (rule find_best_model_single)
  then show "\<exists>fit_aic. find_best_model fit_aic = Some c" by blast
qed

text \<open>A fitted model of order (1,1).\<close>

definition fit_1_1 :: model_fit where
  "fit_1_1 =
     \<lparr>params = [''mu'' \<mapsto> Fin 0.0005, ''omega'' \<mapsto> Fin (- 0.1),
                 ''alpha[1]'' \<mapsto> Fin 0.1, ''beta[1]'' \<mapsto> Fin 0.9],
      conditional_volatility = [Fin 0.015]\<rparr>"

lemma fit_1_1_names: "dom (params fit_1_1) = set (egarch_param_names 1 1)"
  unfolding names_1_1 by (auto simp: fit_1_1_def)

theorem hard_coded_order_key_error_witness:
  "(1, 1) \<in> set candidates \<and> dom (params fit_1_1) = set (egarch_param_names 1 1)
   \<and> monte_carlo_simulation fit_1_1 10000 21 real = Inl (KeyError ''alpha[2]'')
   \<and> (\<exists>fit_aic. find_best_model fit_aic = Some (1, 1))"
proof -
  have c: "(1, 1) \<in> set candidates" by (simp add: candidates_def)
  have h: "((1::nat), (1::nat)) \<in> set candidates \<and> ((1::nat) < 2 \<or> (1::nat) < 2)
           \<and> dom (params fit_1_1) = set (egarch_param_names 1 1)"
    using c fit_1_1_names by simp
  note t = hard_coded_order_key_error [of fit_1_1 10000 21 real]
  from t [THEN conjunct2, THEN conjunct2, THEN conjunct1, THEN spec, THEN spec, THEN mp, OF h]
  have e: "monte_carlo_simulation fit_1_1 10000 21 real = Inl (KeyError ''alpha[2]'')" by simp
  from t [THEN conjunct2, THEN conjunct2, THEN conjunct2, THEN bspec, OF c]
  have "\<exists>fit_aic. find_best_model fit_aic = Some (1, 1)" .
  with c fit_1_1_names e show ?thesis by blast
qed

section \<open>Degenerate values\<close>

text \<open>
  A generator whose draws are all \<open>0\<close>, the scenario with a last volatility of
  \<open>0\<close>, and a fit whose two \<open>beta\<close> cancel.
\<close>

definition zero_shocks :: rng where
  "zero_shocks = (\<lambda>k. 0)"

definition zero_vol_fit :: model_fit where
  "zero_vol_fit = scenario_fit\<lparr>conditional_volatility := [Fin 0.015, Fin 0]\<rparr>"

definition cancelling_fit :: model_fit where
  "cancelling_fit =
     \<lparr>params = [''mu'' \<mapsto> Fin 0.0005, ''omega'' \<mapsto> Fin (- 0.1),
                 ''alpha[1]'' \<mapsto> Fin 0.1, ''alpha[2]'' \<mapsto> Fin 0.05,
                 ''beta[1]'' \<mapsto> Fin 0.05, ''beta[2]'' \<mapsto> Fin (- 0.05)],
      conditional_volatility = [Fin 0]\<rparr>"

definition cancelling_coeffs :: coeffs where
  "cancelling_coeffs =
     \<lparr>mu = Fin 0.0005, omega = Fin (- 0.1), alpha1 = Fin 0.1, alpha2 = Fin 0.05,
      beta1 = Fin 0.05, beta2 = Fin (- 0.05)\<rparr>"

lemma log_of_zero_volatility: "flog (fsquare (Fin 0)) = NInf"
  by (simp add: fsquare_def)

lemma volatility_not_finite: "l = NaN \<or> l = PInf \<Longrightarrow> \<not> is_finite (volatility l)"
  by (auto simp: volatility_def)

lemma volatility_overflow: "768 \<le> x \<Longrightarrow> volatility (Fin x) = PInf"
  by (simp only: volatility_def fexp_overflow fsqrt.simps)

lemma volatility_minus_infinity: "volatility NInf = Fin 0"
  by (simp add: volatility_def)

lemma log_return_not_finite:
  assumes "\<not> is_finite sigma"
  shows "\<not> is_finite (log_return c sigma z)"
proof -
  have z: "z = 0 \<or> 0 < z \<or> z < 0" by linarith
  from assms consider "sigma = PInf" | "sigma = NInf" | "sigma = NaN" by (cases sigma) simp_all
  then show ?thesis
  proof cases
    case 1
    with z show ?thesis
      by (cases "mu c") (auto simp: log_return_def fsquare_def fsub_def inf_times_def)
  next
    case 2
    with z show ?thesis
      by (cases "mu c") (auto simp: log_return_def fsquare_def fsub_def inf_times_def)
  next
    case 3
    then show ?thesis
      by (cases "mu c") (simp_all add: log_return_def fsquare_def fsub_def)
  qed
qed

lemma log_return_zero_sigma: "log_return c (Fin 0) z = mu c"
  by (cases "mu c") (simp_all add: log_return_def fsquare_def fsub_def)

text \<open>
  Claim C6, amended. For valid inputs (the six parameters present, a non-empty series of
  volatilities, sizes that are not negative) the simulation raises no error, whatever
  float values the inputs hold, and a last volatility of \<open>0\<close> starts the log-variance
  at \<open>-inf\<close>. A log-variance that is \<open>nan\<close> or \<open>+inf\<close> gives a volatility
  \<open>sigma\<close> that is not finite, and so does a finite log-variance so large that the
  exponential overflows (from \<open>768\<close> on, at the latest); whenever \<open>sigma\<close> is not
  finite, the entry stored in the matrix is not finite either. A log-variance of
  \<open>-inf\<close> gives \<open>sigma = 0\<close> and the entry \<open>mu\<close>.
\<close>

theorem degeneracy_propagation:
  assumes "read_coeffs (params fit) = Inr c"
      and "last_item (conditional_volatility fit) = Inr last_vol"
      and "0 \<le> n" and "0 \<le> T"
  shows "\<exists>m g'. monte_carlo_simulation fit n T g = Inr (m, g')
           \<and> (\<forall>s<nat n. \<forall>t<nat T.
                 let log_sigma2 = path_log_sigma2 c last_vol (\<lambda>j. g (s * nat T + j)) (Suc t);
                     sigma = volatility log_sigma2
                 in (log_sigma2 = NaN \<or> log_sigma2 = PInf \<longrightarrow> \<not> is_finite sigma)
                  \<and> ((\<exists>x. log_sigma2 = Fin x \<and> 768 \<le> x) \<longrightarrow> sigma = PInf)
                  \<and> (\<not> is_finite sigma \<longrightarrow> \<not> is_finite (rows m ! s ! t))
                  \<and> (log_sigma2 = NInf \<longrightarrow> sigma = Fin 0 \<and> rows m ! s ! t = mu c))
           \<and> flog (fsquare (Fin 0)) = NInf"
proof -
  let ?m = "\<lparr>nrows = nat n, ncols = nat T, rows = all_rows c last_vol g (nat n) (nat T)\<rparr>"
  have r: "monte_carlo_simulation fit n T g = Inr (?m, \<lambda>k. g (nat n * nat T + k))"
    by (rule mc_result [OF assms])
  have p: "let log_sigma2 = path_log_sigma2 c last_vol (\<lambda>j. g (s * nat T + j)) (Suc t);
               sigma = volatility log_sigma2
           in (log_sigma2 = NaN \<or> log_sigma2 = PInf \<longrightarrow> \<not> is_finite sigma)
            \<and> ((\<exists>x. log_sigma2 = Fin x \<and> 768 \<le> x) \<longrightarrow> sigma = PInf)
            \<and> (\<not> is_finite sigma \<longrightarrow> \<not> is_finite (rows ?m ! s ! t))
            \<and> (log_sigma2 = NInf \<longrightarrow> sigma = Fin 0 \<and> rows ?m ! s ! t = mu c)"
    if s: "s < nat n" and t: "t < nat T" for s t
  proof -
    let ?z = "\<lambda>j. g (s * nat T + j)"
    let ?l = "path_log_sigma2 c last_vol ?z (Suc t)"
    have e: "rows ?m ! s ! t = log_return c (volatility ?l) (?z t)"
      using all_rows_entry [OF s t, of c last_vol g] by (simp only: path_return_def ndarray.simps)
    have a: "\<not> is_finite (volatility ?l)" if "?l = NaN \<or> ?l = PInf"
      using that by (rule volatility_not_finite)
    have o: "volatility ?l = PInf" if "\<exists>x. ?l = Fin x \<and> 768 \<le> x"
    proof -
      from that obtain x where x: "?l = Fin x" and big: "768 \<le> x" by blast
      show ?thesis unfolding x by (rule volatility_overflow [OF big])
    qed
    have b: "\<not> is_finite (rows ?m ! s ! t)" if "\<not> is_finite (volatility ?l)"
      unfolding e using that by (rule log_return_not_finite)
    have d: "volatility ?l = Fin 0 \<and> rows ?m ! s ! t = mu c" if "?l = NInf"
      unfolding e that volatility_minus_infinity log_return_zero_sigma by simp
    show ?thesis unfolding Let_def using a o b d by blast
  qed
  from r p log_of_zero_volatility show ?thesis by blast
qed

lemma cancelling_read_coeffs: "read_coeffs (params cancelling_fit) = Inr cancelling_coeffs"
  by (simp add: read_coeffs_def getitem_def cancelling_fit_def cancelling_coeffs_def)

lemma cancelling_last_vol: "last_item (conditional_volatility cancelling_fit) = Inr (Fin 0)"
  by (simp add: last_item_def cancelling_fit_def)

lemma cancelling_log_sigma2: "path_log_sigma2 cancelling_coeffs (Fin 0) zero_shocks (Suc 0) = NaN"
  by (simp add: update_log_sigma2_def cancelling_coeffs_def fsquare_def fsub_def
      sqrt_2_over_pi_def inf_times_def zero_shocks_def)

theorem degeneracy_propagation_witness:
  "read_coeffs (params cancelling_fit) = Inr cancelling_coeffs
   \<and> last_item (conditional_volatility cancelling_fit) = Inr (Fin 0)
   \<and> path_log_sigma2 cancelling_coeffs (Fin 0) zero_shocks (Suc 0) = NaN
   \<and> (\<exists>m g'. monte_carlo_simulation cancelling_fit 1 1 zero_shocks = Inr (m, g')
         \<and> \<not> is_finite (rows m ! 0 ! 0))"
proof -
  have h: "(0::int) \<le> 1" by simp
  from degeneracy_propagation [OF cancelling_read_coeffs cancelling_last_vol h h, of zero_shocks]
  obtain m g' where r: "monte_carlo_simulation cancelling_fit 1 1 zero_shocks = Inr (m, g')"
    and p: "\<forall>s<nat 1. \<forall>t<nat 1.
                 let log_sigma2 = path_log_sigma2 cancelling_coeffs (Fin 0)
                                    (\<lambda>j. zero_shocks (s * nat 1 + j)) (Suc t);
                     sigma = volatility log_sigma2
                 in (log_sigma2 = NaN \<or> log_sigma2 = PInf \<longrightarrow> \<not> is_finite sigma)
                  \<and> ((\<exists>x. log_sigma2 = Fin x \<and> 768 \<le> x) \<longrightarrow> sigma = PInf)
                  \<and> (\<not> is_finite sigma \<longrightarrow> \<not> is_finite (rows m ! s ! t))
                  \<and> (log_sigma2 = NInf \<longrightarrow> sigma = Fin 0 \<and> rows m ! s ! t = mu cancelling_coeffs)"
    by blast
  have z: "(\<lambda>j. zero_shocks (0 * nat 1 + j)) = zero_shocks" by simp
  have "(0::nat) < nat 1" by simp
  with p have "let log_sigma2 = path_log_sigma2 cancelling_coeffs (Fin 0)
                                    (\<lambda>j. zero_shocks (0 * nat 1 + j)) (Suc 0);
                     sigma = volatility log_sigma2
                 in (log_sigma2 = NaN \<or> log_sigma2 = PInf \<longrightarrow> \<not> is_finite sigma)
                  \<and> ((\<exists>x. log_sigma2 = Fin x \<and> 768 \<le> x) \<longrightarrow> sigma = PInf)
                  \<and> (\<not> is_finite sigma \<longrightarrow> \<not> is_finite (rows m ! 0 ! 0))
                  \<and> (log_sigma2 = NInf \<longrightarrow> sigma = Fin 0 \<and> rows m ! 0 ! 0 = mu cancelling_coeffs)"
    by blast
  then have "\<not> is_finite (rows m ! 0 ! 0)"
    unfolding z cancelling_log_sigma2 Let_def by blast
  with r cancelling_read_coeffs cancelling_last_vol cancelling_log_sigma2 show ?thesis by blast
qed

text \<open>
  A runaway variance: with \<open>omega = 1000\<close> in place of the scenario's value and a last
  volatility of \<open>1\<close>, the log-variance after one step is finite, the exponential
  overflows, \<open>sigma\<close> is \<open>+inf\<close> and the return is not finite.
\<close>

definition runaway_coeffs :: coeffs where
  "runaway_coeffs = scenario_coeffs\<lparr>omega := Fin 1000\<rparr>"

lemma runaway_log_sigma2:
  "path_log_sigma2 runaway_coeffs (Fin 1) zero_shocks (Suc 0)
   = Fin (1000 + 0.15 * (0 - sqrt (2 / pi)) + 0.9 * ln (1 * 1))"
  by (simp add: update_log_sigma2_def runaway_coeffs_def scenario_coeffs_def fsquare_def fsub_def
      sqrt_2_over_pi_def zero_shocks_def)

lemma runaway_variance_example:
  "volatility (path_log_sigma2 runaway_coeffs (Fin 1) zero_shocks (Suc 0)) = PInf
   \<and> \<not> is_finite (log_return runaway_coeffs
                      (volatility (path_log_sigma2 runaway_coeffs (Fin 1) zero_shocks (Suc 0))) 0)"
proof -
  define a where "a = sqrt (2 / pi)"
  have "2 / pi \<le> (1::real)" using pi_ge_two by simp
  then have "a \<le> sqrt 1" unfolding a_def by (rule real_sqrt_le_mono)
  then have "a \<le> 1" by simp
  then have "768 \<le> 1000 + 0.15 * (0 - a) + 0.9 * ln (1 * 1 :: real)" by simp
  then have big: "768 \<le> 1000 + 0.15 * (0 - sqrt (2 / pi)) + 0.9 * ln (1 * 1 :: real)"
    unfolding a_def .
  have v: "volatility (path_log_sigma2 runaway_coeffs (Fin 1) zero_shocks (Suc 0)) = PInf"
    unfolding runaway_log_sigma2 by (rule volatility_overflow [OF big])
  have "\<not> is_finite (log_return runaway_coeffs PInf 0)"
    by (rule log_return_not_finite) simp
  with v show ?thesis by simp
qed

lemma zero_vol_read_coeffs: "read_coeffs (params zero_vol_fit) = Inr scenario_coeffs"
  using scenario_read_coeffs by (simp add: zero_vol_fit_def)

lemma zero_vol_last_vol: "last_item (conditional_volatility zero_vol_fit) = Inr (Fin 0)"
  by (simp add: last_item_def zero_vol_fit_def)

lemma zero_vol_log_sigma2: "path_log_sigma2 scenario_coeffs (Fin 0) zero_shocks (Suc 0) = NInf"
  by (simp add: update_log_sigma2_def scenario_coeffs_def fsquare_def fsub_def
      sqrt_2_over_pi_def inf_times_def zero_shocks_def)

text \<open>
  Claim C6 as stated, that every \<open>-inf\<close> arising in the log-variance propagates into the
  returned matrix, fails in the scenario with a last volatility of \<open>0\<close>: after the one
  step of the one path the log-variance is \<open>-inf\<close>, and the matrix returned holds the
  finite entry \<open>mu = 0.0005\<close>.
\<close>

theorem minus_infinity_leaves_finite_entry:
  "last_item (conditional_volatility zero_vol_fit) = Inr (Fin 0)
   \<and> fst (path_body scenario_coeffs (Fin 0) 1 0
            \<lparr>gen = zero_shocks, simulated_returns = \<lparr>nrows = 1, ncols = 1, rows = [[Fin 0]]\<rparr>\<rparr>)
     = NInf
   \<and> monte_carlo_simulation zero_vol_fit 1 1 zero_shocks
     = Inr (\<lparr>nrows = 1, ncols = 1, rows = [[Fin 0.0005]]\<rparr>, zero_shocks)
   \<and> is_finite (Fin 0.0005)"
proof -
  have h: "(0::int) \<le> 1" by simp
  have l: "fst (path_body scenario_coeffs (Fin 0) 1 0
            \<lparr>gen = zero_shocks, simulated_returns = \<lparr>nrows = 1, ncols = 1, rows = [[Fin 0]]\<rparr>\<rparr>)
     = NInf"
  proof -
    let ?ini = "\<lparr>gen = zero_shocks, simulated_returns = \<lparr>nrows = 1, ncols = 1, rows = [[Fin 0]]\<rparr>\<rparr>"
    have "fst (time_loop scenario_coeffs 0 [0..<Suc 0] (flog (fsquare (Fin 0)), ?ini))
          = path_log_sigma2 scenario_coeffs (Fin 0) (gen ?ini) (Suc 0)"
      by (rule time_loop_log_sigma2 [THEN conjunct1])
    also have "gen ?ini = zero_shocks" by simp
    finally show ?thesis
      unfolding path_body_def path_init_def One_nat_def zero_vol_log_sigma2 .
  qed
  have g: "(\<lambda>k. zero_shocks (nat 1 * nat 1 + k)) = zero_shocks"
    by (simp add: zero_shocks_def)
  have z: "(\<lambda>k. zero_shocks (0 * 1 + k)) = zero_shocks" by simp
  have "path_return scenario_coeffs (Fin 0) zero_shocks 0 = Fin 0.0005"
    unfolding path_return_def zero_vol_log_sigma2 volatility_minus_infinity log_return_zero_sigma
    by (simp add: scenario_coeffs_def)
  then have a: "all_rows scenario_coeffs (Fin 0) zero_shocks (nat 1) (nat 1) = [[Fin 0.0005]]"
    by (simp add: all_rows_def path_row_def z)
  have "monte_carlo_simulation zero_vol_fit 1 1 zero_shocks
     = Inr (\<lparr>nrows = 1, ncols = 1, rows = [[Fin 0.0005]]\<rparr>, zero_shocks)"
    unfolding mc_result [OF zero_vol_read_coeffs zero_vol_last_vol h h] a g by simp
  with l zero_vol_last_vol show ?thesis by simp
qed


section \<open>The reporting stage of main\<close>

text \<open>The comparison \<open><=\<close> of floats.\<close>

fun fle :: "npfloat \<Rightarrow> npfloat \<Rightarrow> bool" where
  "fle NaN y = False"
| "fle x NaN = False"
| "fle (Fin a) (Fin b) = (a \<le> b)"
| "fle (Fin a) PInf = True"
| "fle (Fin a) NInf = False"
| "fle PInf (Fin b) = False"
| "fle PInf PInf = True"
| "fle PInf NInf = False"
| "fle NInf y = True"

text \<open>
  \<open>np.percentile\<close> is a function of the numerical library, not of the repository. It
  is taken as the library computes it with its default method (\<open>linear\<close>), on a
  one-dimensional array \<open>a\<close> of length \<open>n\<close> and a percentile \<open>q\<close>:
  \<^item> a \<open>q\<close> outside \<open>[0, 100]\<close> raises ValueError, and an empty array IndexError;
  \<^item> the data are sorted, \<open>nan\<close> after every other value; when the data hold a
    \<open>nan\<close>, the result is \<open>nan\<close>;
  \<^item> otherwise the result is interpolated between the sorted entries at
    \<open>j = floor h\<close> and \<open>j + 1\<close> (the last entry at most), where
    \<open>h = (n - 1) * q / 100\<close>, with the weight \<open>t = h - j\<close>: it is \<open>a + (b - a) * t\<close>
    for \<open>t < 0.5\<close> and \<open>b - (b - a) * (1 - t)\<close> from \<open>0.5\<close> on, computed with the
    float operations, so that infinite entries can give \<open>nan\<close>.
\<close>

fun sorts_before :: "npfloat \<Rightarrow> npfloat \<Rightarrow> bool" where
  "sorts_before x NaN = True"
| "sorts_before NaN y = False"
| "sorts_before NInf y = True"
| "sorts_before x PInf = True"
| "sorts_before (Fin a) (Fin b) = (a \<le> b)"
| "sorts_before (Fin a) NInf = False"
| "sorts_before PInf y = False"

primrec insert_sorted :: "npfloat \<Rightarrow> npfloat list \<Rightarrow> npfloat list" where
  "insert_sorted x [] = [x]"
| "insert_sorted x (y # ys) =
     (if sorts_before x y then x # y # ys else y # insert_sorted x ys)"

definition np_sort :: "npfloat list \<Rightarrow> npfloat list" where
  "np_sort a = foldr insert_sorted a []"

definition lerp :: "npfloat \<Rightarrow> npfloat \<Rightarrow> real \<Rightarrow> npfloat" where
  "lerp a b t =
     (let diff_b_a = fsub b a
      in if 1 / 2 \<le> t then fsub b (fmul diff_b_a (Fin (1 - t)))
         else fadd a (fmul diff_b_a (Fin t)))"

definition np_percentile :: "npfloat list \<Rightarrow> real \<Rightarrow> py_error + npfloat" where
  "np_percentile a q =
     (if q < 0 \<or> 100 < q then Inl ValueError
      else if a = [] then Inl IndexError
      else if NaN \<in> set a then Inr NaN
      else let s = np_sort a;
               h = real (length a - 1) * (q / 100);
               j = nat \<lfloor>h\<rfloor>
           in Inr (lerp (s ! j) (s ! min (j + 1) (length a - 1)) (h - real j)))"

text \<open>
  Lines 106 and 110 of \<open>main\<close>: the sums of the rows of the matrix, and the prices
  \<open>last_price * exp(cumulative_returns)\<close>.
\<close>

definition cumulative_returns :: "ndarray \<Rightarrow> npfloat list" where
  "cumulative_returns simulated = map fsum (rows simulated)"

definition predicted_prices :: "npfloat \<Rightarrow> ndarray \<Rightarrow> npfloat list" where
  "predicted_prices last_price simulated =
     map (\<lambda>c. fmul last_price (fexp c)) (cumulative_returns simulated)"

text \<open>Lines 113 to 118 of \<open>main\<close>.\<close>

definition confidence_level :: real where
  "confidence_level = 0.99"

definition lower_percentile :: real where
  "lower_percentile = (1 - confidence_level) / 2"

definition upper_percentile :: real where
  "upper_percentile = 1 - lower_percentile"

definition lower_bound :: "npfloat list \<Rightarrow> py_error + npfloat" where
  "lower_bound prices = np_percentile prices (lower_percentile * 100)"

definition upper_bound :: "npfloat list \<Rightarrow> py_error + npfloat" where
  "upper_bound prices = np_percentile prices (upper_percentile * 100)"

text \<open>
  The interpolation on finite sorted data, in real arithmetic, and the number a finite
  float holds: both serve the proofs below.
\<close>

definition lerp_sorted :: "real list \<Rightarrow> real \<Rightarrow> real" where
  "lerp_sorted s h =
     (let j = nat \<lfloor>h\<rfloor>; g = h - real j
      in s ! j + (s ! (min (j + 1) (length s - 1)) - s ! j) * g)"

fun the_fin :: "npfloat \<Rightarrow> real" where
  "the_fin (Fin x) = x"
| "the_fin PInf = 0"
| "the_fin NInf = 0"
| "the_fin NaN = 0"

lemma lerp_sorted_bounds:
  assumes s: "sorted s" and h0: "0 \<le> h" and hn: "h \<le> real (length s - 1)" and ne: "s \<noteq> []"
  shows "s ! nat \<lfloor>h\<rfloor> \<le> lerp_sorted s h"
    and "lerp_sorted s h \<le> s ! min (nat \<lfloor>h\<rfloor> + 1) (length s - 1)"
proof -
  let ?j = "nat \<lfloor>h\<rfloor>"
  let ?k = "min (?j + 1) (length s - 1)"
  let ?g = "h - real ?j"
  have fl: "real ?j = of_int \<lfloor>h\<rfloor>" using h0 by simp
  have g0: "0 \<le> ?g" unfolding fl by linarith
  have g1: "?g \<le> 1" unfolding fl by linarith
  have "\<lfloor>h\<rfloor> \<le> int (length s - 1)" using hn by (simp add: floor_le_iff)
  then have jn: "?j \<le> length s - 1" using h0 by simp
  have kl: "?k < length s" using ne by (cases s) simp_all
  have jk: "?j \<le> ?k" using jn by simp
  have d: "s ! ?j \<le> s ! ?k" by (rule sorted_nth_mono [OF s jk kl])
  have e: "lerp_sorted s h = s ! ?j + (s ! ?k - s ! ?j) * ?g"
    by (simp add: lerp_sorted_def Let_def)
  have "0 \<le> (s ! ?k - s ! ?j) * ?g" using d g0 by simp
  then show "s ! ?j \<le> lerp_sorted s h" unfolding e by simp
  have "(s ! ?k - s ! ?j) * ?g \<le> (s ! ?k - s ! ?j) * 1"
    using d g1 by (intro mult_left_mono) simp_all
  then show "lerp_sorted s h \<le> s ! ?k" unfolding e by simp
qed

lemma lerp_sorted_mono:
  assumes s: "sorted s" and ne: "s \<noteq> []"
      and h0: "0 \<le> h1" and le: "h1 \<le> h2" and hn: "h2 \<le> real (length s - 1)"
  shows "lerp_sorted s h1 \<le> lerp_sorted s h2"
proof -
  define j1 where "j1 = nat \<lfloor>h1\<rfloor>"
  define j2 where "j2 = nat \<lfloor>h2\<rfloor>"
  define k where "k = min (j1 + 1) (length s - 1)"
  have h20: "0 \<le> h2" using h0 le by simp
  have h1n: "h1 \<le> real (length s - 1)" using le hn by simp
  have jj: "j1 \<le> j2" unfolding j1_def j2_def using le by (simp add: floor_mono nat_mono)
  have "\<lfloor>h2\<rfloor> \<le> int (length s - 1)" using hn by (simp add: floor_le_iff)
  then have j2n: "j2 \<le> length s - 1" unfolding j2_def using h20 by simp
  have j2l: "j2 < length s" using j2n ne by (cases s) simp_all
  have kl: "k < length s" unfolding k_def using ne by (cases s) simp_all
  have e1: "lerp_sorted s h1 = s ! j1 + (s ! k - s ! j1) * (h1 - real j1)"
    by (simp add: lerp_sorted_def Let_def j1_def k_def)
  show ?thesis
  proof (cases "j1 = j2")
    case True
    have jk: "j1 \<le> k" unfolding k_def using j2n True by simp
    have d: "s ! j1 \<le> s ! k" by (rule sorted_nth_mono [OF s jk kl])
    have e2: "lerp_sorted s h2 = s ! j1 + (s ! k - s ! j1) * (h2 - real j1)"
      unfolding True by (simp add: lerp_sorted_def Let_def j2_def k_def True [symmetric, unfolded j2_def] j1_def)
    have "(s ! k - s ! j1) * (h1 - real j1) \<le> (s ! k - s ! j1) * (h2 - real j1)"
      using d le by (intro mult_left_mono) simp_all
    then show ?thesis unfolding e1 e2 by simp
  next
    case False
    with jj have lt: "j1 < j2" by (rule le_neq_trans)
    have kj: "k \<le> j2" unfolding k_def using lt by simp
    have "lerp_sorted s h1 \<le> s ! k"
      unfolding k_def j1_def by (rule lerp_sorted_bounds(2) [OF s h0 h1n ne])
    also have "\<dots> \<le> s ! j2" by (rule sorted_nth_mono [OF s kj j2l])
    also have "\<dots> \<le> lerp_sorted s h2"
      unfolding j2_def by (rule lerp_sorted_bounds(1) [OF s h20 hn ne])
    finally show ?thesis .
  qed
qed

lemma percentile_values:
  "lower_percentile * 100 = 0.5" "upper_percentile * 100 = 99.5"
  by (simp_all add: lower_percentile_def upper_percentile_def confidence_level_def)

lemma insert_sorted_finite:
  "insert_sorted (Fin x) (map Fin ys) = map Fin (insort x ys)"
  by (induction ys) simp_all

lemma np_sort_finite: "np_sort (map Fin xs) = map Fin (sort xs)"
  by (induction xs) (simp_all add: np_sort_def sort_key_def insert_sorted_finite)

lemma finite_list:
  assumes "\<forall>x\<in>set a. is_finite x"
  shows "a = map Fin (map the_fin a)"
  using assms
proof (induction a)
  case Nil
  show ?case by simp
next
  case (Cons x a)
  then show ?case by (cases x) simp_all
qed

lemma lerp_finite: "lerp (Fin a) (Fin b) t = Fin (a + (b - a) * t)"
  by (simp add: lerp_def Let_def fsub_def algebra_simps)

lemma np_percentile_finite:
  assumes q: "0 \<le> q" "q \<le> 100" and ne: "xs \<noteq> []"
  shows "np_percentile (map Fin xs) q
         = Inr (Fin (lerp_sorted (sort xs) (real (length xs - 1) * (q / 100))))"
proof -
  define n where "n = length xs"
  define h where "h = real (n - 1) * (q / 100)"
  define j where "j = nat \<lfloor>h\<rfloor>"
  define k where "k = min (j + 1) (n - 1)"
  have n0: "0 \<le> real (n - 1)" by simp
  have h0: "0 \<le> h" unfolding h_def using q(1) n0 by simp
  have "h \<le> real (n - 1) * 1" unfolding h_def using q(2) n0 by (intro mult_left_mono) simp_all
  then have hn: "h \<le> real (n - 1)" by simp
  then have "\<lfloor>h\<rfloor> \<le> int (n - 1)" by (simp add: floor_le_iff)
  then have jn: "j \<le> n - 1" unfolding j_def using h0 by simp
  have pos: "0 < n" unfolding n_def using ne by simp
  have "j < n" using jn pos by linarith
  then have jl: "j < length (sort xs)" by (simp add: n_def)
  have "k < n" unfolding k_def using pos by linarith
  then have kl: "k < length (sort xs)" by (simp add: n_def)
  have nonan: "NaN \<notin> set (map Fin xs)" by auto
  have len: "length (map Fin xs) = n" by (simp add: n_def)
  have "np_percentile (map Fin xs) q
        = Inr (lerp (map Fin (sort xs) ! j) (map Fin (sort xs) ! k) (h - real j))"
    unfolding np_percentile_def Let_def len np_sort_finite
    using q ne nonan by (simp add: h_def j_def k_def)
  also have "\<dots> = Inr (Fin (sort xs ! j + (sort xs ! k - sort xs ! j) * (h - real j)))"
    by (simp only: nth_map [OF jl] nth_map [OF kl] lerp_finite)
  also have "\<dots> = Inr (Fin (lerp_sorted (sort xs) h))"
    by (simp add: lerp_sorted_def Let_def j_def k_def n_def)
  finally show ?thesis unfolding h_def n_def .
qed

lemma np_percentile_mono:
  assumes fin: "\<forall>x\<in>set prices. is_finite x" and ne: "prices \<noteq> []"
      and q: "0 \<le> q1" "q1 \<le> q2" "q2 \<le> 100"
  shows "\<exists>l u. np_percentile prices q1 = Inr (Fin l) \<and> np_percentile prices q2 = Inr (Fin u)
             \<and> l \<le> u"
proof -
  define xs where "xs = map the_fin prices"
  have p: "prices = map Fin xs" unfolding xs_def by (rule finite_list [OF fin])
  have xne: "xs \<noteq> []" using ne p by auto
  let ?n = "real (length xs - 1)"
  have n0: "0 \<le> ?n" by simp
  have sne: "sort xs \<noteq> []" using xne by (metis length_sort length_0_conv)
  have h0: "0 \<le> ?n * (q1 / 100)" using n0 q(1) by simp
  have le: "?n * (q1 / 100) \<le> ?n * (q2 / 100)" using n0 q(2) by (intro mult_left_mono) simp_all
  have "?n * (q2 / 100) \<le> ?n * 1" using n0 q(3) by (intro mult_left_mono) simp_all
  then have hn: "?n * (q2 / 100) \<le> real (length (sort xs) - 1)" by simp
  have m: "lerp_sorted (sort xs) (?n * (q1 / 100)) \<le> lerp_sorted (sort xs) (?n * (q2 / 100))"
    by (rule lerp_sorted_mono [OF sorted_sort sne h0 le hn])
  have q1': "q1 \<le> 100" and q2': "0 \<le> q2" using q by simp_all
  show ?thesis
    unfolding p np_percentile_finite [OF q(1) q1' xne] np_percentile_finite [OF q2' q(3) xne]
    using m by blast
qed

lemma np_percentile_nan:
  assumes "NaN \<in> set prices" and "0 \<le> q" and "q \<le> 100"
  shows "np_percentile prices q = Inr NaN"
proof -
  from assms(1) have "prices \<noteq> []" by auto
  with assms show ?thesis by (simp add: np_percentile_def)
qed


text \<open>
  Claim C7, amended. A call that leaves the two sizes out runs with
  \<open>n_simulations = 10000\<close> and \<open>forecast_period = 21\<close>. The reporting stage has
  \<open>confidence_level = 0.99\<close>; its bounds are the percentiles of the predicted prices at
  the ranks \<open>(1 - 0.99) / 2 * 100\<close> and \<open>(1 - (1 - 0.99) / 2) * 100\<close>, which are
  \<open>0.5\<close> and \<open>99.5\<close> in exact arithmetic. For every non-empty list of finite prices
  both bounds are finite and \<open>lower_bound <= upper_bound\<close>; the same holds of the
  percentiles at any two ranks \<open>q1 <= q2\<close> in \<open>[0, 100]\<close>, so also at the ranks as the
  floats round them. When a price is \<open>nan\<close>, both bounds are \<open>nan\<close>.
\<close>

theorem reporting_defaults_and_bounds:
  "monte_carlo_simulation_default fit g = monte_carlo_simulation fit 10000 21 g
   \<and> confidence_level = 0.99
   \<and> lower_bound prices = np_percentile prices 0.5
   \<and> upper_bound prices = np_percentile prices 99.5
   \<and> (prices \<noteq> [] \<and> (\<forall>x\<in>set prices. is_finite x) \<longrightarrow>
          (\<exists>l u. lower_bound prices = Inr (Fin l) \<and> upper_bound prices = Inr (Fin u)
                \<and> l \<le> u \<and> fle (Fin l) (Fin u))
        \<and> (\<forall>q1 q2. 0 \<le> q1 \<and> q1 \<le> q2 \<and> q2 \<le> 100 \<longrightarrow>
              (\<exists>l u. np_percentile prices q1 = Inr (Fin l) \<and> np_percentile prices q2 = Inr (Fin u)
                    \<and> l \<le> u)))
   \<and> (NaN \<in> set prices \<longrightarrow> lower_bound prices = Inr NaN \<and> upper_bound prices = Inr NaN)"
proof (intro conjI impI allI)
  show "monte_carlo_simulation_default fit g = monte_carlo_simulation fit 10000 21 g"
    by (simp add: monte_carlo_simulation_default_def default_n_simulations_def
        default_forecast_period_def)
  show "confidence_level = 0.99" by (simp add: confidence_level_def)
  show "lower_bound prices = np_percentile prices 0.5"
    unfolding lower_bound_def percentile_values ..
  show "upper_bound prices = np_percentile prices 99.5"
    unfolding upper_bound_def percentile_values ..
next
  assume h: "prices \<noteq> [] \<and> (\<forall>x\<in>set prices. is_finite x)"
  then have ne: "prices \<noteq> []" and fin: "\<forall>x\<in>set prices. is_finite x" by blast+
  have r: "(0::real) \<le> 0.5" "(0.5::real) \<le> 99.5" "(99.5::real) \<le> 100" by simp_all
  from np_percentile_mono [OF fin ne r]
  obtain l u where "np_percentile prices 0.5 = Inr (Fin l)" "np_percentile prices 99.5 = Inr (Fin u)"
    "l \<le> u" by blast
  then show "\<exists>l u. lower_bound prices = Inr (Fin l) \<and> upper_bound prices = Inr (Fin u)
                \<and> l \<le> u \<and> fle (Fin l) (Fin u)"
    unfolding lower_bound_def upper_bound_def percentile_values by simp
next
  fix q1 q2 :: real
  assume h: "prices \<noteq> [] \<and> (\<forall>x\<in>set prices. is_finite x)"
    and q: "0 \<le> q1 \<and> q1 \<le> q2 \<and> q2 \<le> 100"
  from h have ne: "prices \<noteq> []" and fin: "\<forall>x\<in>set prices. is_finite x" by blast+
  from q have q1: "0 \<le> q1" and q12: "q1 \<le> q2" and q2: "q2 \<le> 100" by blast+
  show "\<exists>l u. np_percentile prices q1 = Inr (Fin l) \<and> np_percentile prices q2 = Inr (Fin u)
                    \<and> l \<le> u"
    by (rule np_percentile_mono [OF fin ne q1 q12 q2])
next
  assume n: "NaN \<in> set prices"
  show "lower_bound prices = Inr NaN"
    unfolding lower_bound_def percentile_values by (rule np_percentile_nan [OF n]) simp_all
  show "upper_bound prices = Inr NaN"
    unfolding upper_bound_def percentile_values by (rule np_percentile_nan [OF n]) simp_all
qed

lemma example_lower: "np_percentile [Fin 3, Fin 1, Fin 2] 0.5 = Inr (Fin 1.01)"
  by (simp add: np_percentile_def np_sort_def lerp_def fsub_def Let_def)

lemma example_upper: "np_percentile [Fin 3, Fin 1, Fin 2] 99.5 = Inr (Fin 2.99)"
  by (simp add: np_percentile_def np_sort_def lerp_def fsub_def Let_def)

theorem reporting_defaults_and_bounds_witness:
  "[Fin 3, Fin 1, Fin 2] \<noteq> [] \<and> list_all is_finite [Fin 3, Fin 1, Fin 2]
   \<and> (\<exists>l u. lower_bound [Fin 3, Fin 1, Fin 2] = Inr (Fin l)
          \<and> upper_bound [Fin 3, Fin 1, Fin 2] = Inr (Fin u)
          \<and> l \<le> u \<and> l = 1.01 \<and> u = 2.99)
   \<and> lower_bound [Fin 1, NaN] = Inr NaN \<and> upper_bound [Fin 1, NaN] = Inr NaN"
proof -
  let ?p = "[Fin 3, Fin 1, Fin 2]"
  have h: "?p \<noteq> [] \<and> (\<forall>x\<in>set ?p. is_finite x)" by simp
  have n: "NaN \<in> set [Fin 1, NaN]" by simp
  note t = reporting_defaults_and_bounds [of _ _ ?p]
  note t' = reporting_defaults_and_bounds [of _ _ "[Fin 1, NaN]"]
  from t [THEN conjunct2, THEN conjunct2, THEN conjunct2, THEN conjunct2, THEN conjunct1,
          THEN mp, OF h, THEN conjunct1]
  obtain l u where l: "lower_bound ?p = Inr (Fin l)"
    and u: "upper_bound ?p = Inr (Fin u)" and lu: "l \<le> u"
    by blast
  from t [THEN conjunct2, THEN conjunct2, THEN conjunct1] l example_lower
  have l': "l = 1.01" by simp
  from t [THEN conjunct2, THEN conjunct2, THEN conjunct2, THEN conjunct1] u example_upper
  have u': "u = 2.99" by simp
  have e: "\<exists>l u. lower_bound ?p = Inr (Fin l) \<and> upper_bound ?p = Inr (Fin u)
          \<and> l \<le> u \<and> l = 1.01 \<and> u = 2.99"
    using l u lu l' u' by blast
  note nn = t' [THEN conjunct2, THEN conjunct2, THEN conjunct2, THEN conjunct2, THEN conjunct2,
                THEN mp, OF n]
  have f: "list_all is_finite ?p" by simp
  have ne: "?p \<noteq> []" by simp
  show ?thesis
    by (intro conjI ne f e nn [THEN conjunct1] nn [THEN conjunct2])
qed

text \<open>
  Claim C7 as stated, with \<open>lower_bound <= upper_bound\<close> for every non-empty collection
  of predicted prices, fails on the matrix the simulation returns for the fit whose two
  \<open>beta\<close> cancel at a last volatility of \<open>0\<close>: its one entry is \<open>nan\<close>, so is the
  one predicted price, both bounds are \<open>nan\<close>, and \<open>nan <= nan\<close> is false.
\<close>

lemma cancelling_entry: "path_return cancelling_coeffs (Fin 0) zero_shocks 0 = NaN"
  unfolding path_return_def cancelling_log_sigma2
  by (simp add: volatility_def log_return_def fsquare_def fsub_def cancelling_coeffs_def)

theorem nan_price_bounds_unordered:
  "monte_carlo_simulation cancelling_fit 1 1 zero_shocks
     = Inr (\<lparr>nrows = 1, ncols = 1, rows = [[NaN]]\<rparr>, zero_shocks)
   \<and> predicted_prices (Fin 100) \<lparr>nrows = 1, ncols = 1, rows = [[NaN]]\<rparr> = [NaN]
   \<and> lower_bound [NaN] = Inr NaN \<and> upper_bound [NaN] = Inr NaN
   \<and> \<not> fle NaN NaN"
proof -
  have h: "(0::int) \<le> 1" by simp
  have g: "(\<lambda>k. zero_shocks (nat 1 * nat 1 + k)) = zero_shocks"
    by (simp add: zero_shocks_def)
  have z: "(\<lambda>k. zero_shocks (0 * 1 + k)) = zero_shocks" by simp
  have a: "all_rows cancelling_coeffs (Fin 0) zero_shocks (nat 1) (nat 1) = [[NaN]]"
    by (simp add: all_rows_def path_row_def z cancelling_entry)
  have m: "monte_carlo_simulation cancelling_fit 1 1 zero_shocks
     = Inr (\<lparr>nrows = 1, ncols = 1, rows = [[NaN]]\<rparr>, zero_shocks)"
    unfolding mc_result [OF cancelling_read_coeffs cancelling_last_vol h h] a g by simp
  have p: "predicted_prices (Fin 100) \<lparr>nrows = 1, ncols = 1, rows = [[NaN]]\<rparr> = [NaN]"
    by (simp add: predicted_prices_def cumulative_returns_def fsum_def)
  have l: "lower_bound [NaN] = Inr NaN"
    unfolding lower_bound_def percentile_values by (simp add: np_percentile_def)
  have u: "upper_bound [NaN] = Inr NaN"
    unfolding upper_bound_def percentile_values by (simp add: np_percentile_def)
  have f: "\<not> fle NaN NaN" by simp
  show ?thesis by (intro conjI m p l u f)
qed

end
